theory Spec2Isabelle
  imports Complex_Main "HOL-Library.Multiset" "HOL-Library.Log_Nat"
begin

section \<open>Python values: errors, text and numbers\<close>

text \<open>
  The budget reminder turns spreadsheet cells (text) into typed records. A cell is a
  Python \<open>str\<close>; it is modelled as a \<open>string\<close> whose characters are read as the code
  points U+0000 .. U+00FF, and the text operations below are Python's on that range.
  A Python \<open>float\<close> amount is modelled by the exact rational it denotes: the decimal
  value of the digits, with no binary64 rounding, infinity or NaN. The sums of \<open>Bss\<close>,
  where the rounding decides what holds, are given with binary64 rounding as well.
  An exception is the \<open>Inl\<close> branch of a sum type; \<open>bind\<close> propagates it as Python
  does, stopping at the first statement that raises.
\<close>

datatype py_error = IndexError | ValueError | Exception

definition bind :: "py_error + 'a \<Rightarrow> ('a \<Rightarrow> py_error + 'b) \<Rightarrow> py_error + 'b" where
  "bind m f = (case m of Inl e \<Rightarrow> Inl e | Inr x \<Rightarrow> f x)"

text \<open>\<open>xs[i]\<close> for a non-negative index: out of range raises \<open>IndexError\<close>.\<close>

definition getitem :: "'a list \<Rightarrow> nat \<Rightarrow> py_error + 'a" where
  "getitem xs i = (if i < length xs then Inr (xs ! i) else Inl IndexError)"

text \<open>\<open>str.isspace\<close> on U+0000 .. U+00FF: TAB .. CR, FS .. US, space, NEL and NBSP.\<close>

definition isspace :: "char \<Rightarrow> bool" where
  "isspace c = (let n = (of_char c :: nat)
     in (9 \<le> n \<and> n \<le> 13) \<or> (28 \<le> n \<and> n \<le> 32) \<or> n = 133 \<or> n = 160)"

definition strip :: "string \<Rightarrow> string" where
  "strip s = rev (dropWhile isspace (rev (dropWhile isspace s)))"

text \<open>
  \<open>str.lower\<close>: the upper-case letters of the range are A .. Z and U+00C0 .. U+00DE
  without the multiplication sign U+00D7; each maps to the code point 32 above.
\<close>

definition lower_char :: "char \<Rightarrow> char" where
  "lower_char c = (let n = (of_char c :: nat)
     in if (65 \<le> n \<and> n \<le> 90) \<or> (192 \<le> n \<and> n \<le> 222 \<and> n \<noteq> 215)
        then char_of (n + 32) else c)"

definition lower :: "string \<Rightarrow> string" where
  "lower s = map lower_char s"

text \<open>
  \<open>str.upper\<close> leaves the range for three letters (the micro sign becomes U+039C, the
  sharp s becomes \<open>SS\<close>, y with diaeresis becomes U+0178), so its result is given as code
  points.
\<close>

definition upper_char :: "char \<Rightarrow> nat list" where
  "upper_char c = (let n = (of_char c :: nat)
     in if (97 \<le> n \<and> n \<le> 122) \<or> (224 \<le> n \<and> n \<le> 254 \<and> n \<noteq> 247) then [n - 32]
        else if n = 181 then [924]
        else if n = 223 then [83, 83]
        else if n = 255 then [376]
        else [n])"

definition upper :: "string \<Rightarrow> nat list" where
  "upper s = concat (map upper_char s)"

definition codepoints :: "string \<Rightarrow> nat list" where
  "codepoints s = map of_char s"

text \<open>\<open>needle in hay\<close> for two strings: \<open>needle\<close> occurs as a contiguous run.\<close>

fun contains :: "string \<Rightarrow> string \<Rightarrow> bool" where
  "contains needle [] = (needle = [])"
| "contains needle (c # cs) = (take (length needle) (c # cs) = needle \<or> contains needle cs)"

subsection \<open>helpers.parse_money\<close>

text \<open>The regular expression class \<open>\d\<close>: on the range, the ten digits 0 .. 9.\<close>

definition is_digit :: "char \<Rightarrow> bool" where
  "is_digit c = (let n = (of_char c :: nat) in 48 \<le> n \<and> n \<le> 57)"

text \<open>\<open>re.sub(r"[^\d\.-]", "", value)\<close>: every character outside the class is deleted.\<close>

definition re_sub_money :: "string \<Rightarrow> string" where
  "re_sub_money s = filter (\<lambda>c. is_digit c \<or> c = CHR ''.'' \<or> c = CHR ''-'') s"

definition digits_value :: "string \<Rightarrow> nat" where
  "digits_value ds = foldl (\<lambda>a c. 10 * a + (of_char c - 48)) 0 ds"

text \<open>
  \<open>float(text)\<close> on the text \<open>re_sub_money\<close> leaves (digits, dots and dashes only). Of
  Python's grammar for \<open>float\<close> this alphabet reaches: an optional leading \<open>-\<close>, then
  digits with at most one dot and at least one digit. Everything else raises
  \<open>ValueError\<close>.
\<close>

definition float_unsigned :: "string \<Rightarrow> py_error + rat" where
  "float_unsigned s =
     (let ip = takeWhile is_digit s; rest = dropWhile is_digit s
      in if rest = [] then (if ip = [] then Inl ValueError else Inr (of_nat (digits_value ip)))
         else if hd rest = CHR ''.'' \<and> list_all is_digit (tl rest) \<and> (ip \<noteq> [] \<or> tl rest \<noteq> [])
         then Inr (of_nat (digits_value ip)
                   + of_nat (digits_value (tl rest)) / 10 ^ length (tl rest))
         else Inl ValueError)"

definition float_of_residue :: "string \<Rightarrow> py_error + rat" where
  "float_of_residue s =
     (case s of
        [] \<Rightarrow> Inl ValueError
      | c # cs \<Rightarrow> if c = CHR ''-'' then bind (float_unsigned cs) (\<lambda>v. Inr (- v))
                  else float_unsigned s)"

text \<open>
  \<open>parse_money(value)\<close>: \<open>if not value: return 0.0\<close> answers both \<open>None\<close> and the empty
  string; any other text goes through the substitution and \<open>float\<close>.
\<close>

definition parse_money :: "string option \<Rightarrow> py_error + rat" where
  "parse_money v =
     (case v of
        None \<Rightarrow> Inr 0
      | Some s \<Rightarrow> if s = [] then Inr 0 else float_of_residue (re_sub_money s))"

section \<open>primitives: the domain records and their mappers\<close>

datatype ExpenseType = Expendable | Saving | RequiredPayment

datatype BssCategory = Spending | Bills | Savings

subsection \<open>BssSpent and Bss: the categorized spend\<close>

record BssSpent =
  category :: BssCategory
  amount :: rat

text \<open>
  The category of a label cell, as \<open>BssSpent.from_rows\<close> decides it: the cell is
  stripped and lower-cased, then \<open>"bill" in category_str\<close> is tested before
  \<open>"sav" in category_str\<close>.
\<close>

definition category_of_label :: "string \<Rightarrow> BssCategory" where
  "category_of_label cell =
     (let category_str = lower (strip cell)
      in if contains ''bill'' category_str then Bills
         else if contains ''sav'' category_str then Savings
         else Spending)"

text \<open>\<open>not rows[i] or not rows[i][0].strip()\<close>: the row has no cell, or a blank first one.\<close>

definition blank_row :: "string list \<Rightarrow> bool" where
  "blank_row row = (row = [] \<or> strip (row ! 0) = [])"

text \<open>
  The \<open>while i < len(rows)\<close> loop of \<open>BssSpent.from_rows\<close>, with its two variables
  \<open>i\<close> and \<open>result\<close>. The amount row is read as \<open>rows[i + 1][0]\<close> without a check,
  so an amount row with no cell raises \<open>IndexError\<close>.
\<close>

function BssSpent_from_rows_loop ::
  "string list list \<Rightarrow> nat \<Rightarrow> BssSpent list \<Rightarrow> py_error + BssSpent list" where
  "BssSpent_from_rows_loop rows i result =
     (if i < length rows then
        (if blank_row (rows ! i) then BssSpent_from_rows_loop rows (i + 1) result
         else
           (case (if i + 1 < length rows
                  then bind (getitem (rows ! (i + 1)) 0) (\<lambda>cell. parse_money (Some cell))
                  else Inr 0) of
              Inl e \<Rightarrow> Inl e
            | Inr a \<Rightarrow>
                BssSpent_from_rows_loop rows (i + 2)
                  (result @ [\<lparr>BssSpent.category = category_of_label (rows ! i ! 0),
                              BssSpent.amount = a\<rparr>])))
      else Inr result)"
  by pat_completeness auto
termination
  by (relation "measure (\<lambda>(rows, i, result). length rows - i)") auto

definition BssSpent_from_rows :: "string list list \<Rightarrow> py_error + BssSpent list" where
  "BssSpent_from_rows rows = BssSpent_from_rows_loop rows 0 []"

record Bss =
  elements :: "BssSpent list"

definition Bss_from_rows :: "string list list \<Rightarrow> py_error + Bss" where
  "Bss_from_rows rows = bind (BssSpent_from_rows rows) (\<lambda>els. Inr \<lparr>elements = els\<rparr>)"

text \<open>The four accessors: \<open>sum\<close> over a generator that filters by category.\<close>

definition spending :: "Bss \<Rightarrow> rat" where
  "spending self =
     sum_list [BssSpent.amount bss. bss \<leftarrow> elements self, BssSpent.category bss = Spending]"

definition bills :: "Bss \<Rightarrow> rat" where
  "bills self =
     sum_list [BssSpent.amount bss. bss \<leftarrow> elements self, BssSpent.category bss = Bills]"

definition savings :: "Bss \<Rightarrow> rat" where
  "savings self =
     sum_list [BssSpent.amount bss. bss \<leftarrow> elements self, BssSpent.category bss = Savings]"

definition total :: "Bss \<Rightarrow> rat" where
  "total self = sum_list [BssSpent.amount bss. bss \<leftarrow> elements self]"

subsection \<open>Binary floating point: the sums of Bss as the interpreter computes them\<close>

text \<open>
  Whether the three category sums add up to the total is decided by the rounding of
  Python's \<open>float\<close>, so the four accessors are given a second time with it. A \<open>float\<close> is
  an IEEE 754 binary64 number: a rational with a 53-bit significand, and every operation
  rounds its exact result to the nearest such number, ties to the even significand.
  \<open>round64\<close> is that rounding (the exponent range is not bounded here: no overflow to
  infinity, no subnormal numbers, no NaN), and \<open>fadd\<close> is the \<open>+\<close> of two floats.
  \<open>binade x\<close> is the exponent of the power of two at or below \<open>\<bar>x\<bar>\<close>.
\<close>

definition round_half_even :: "rat \<Rightarrow> int" where
  "round_half_even x =
     (let n = \<lfloor>x\<rfloor>; r = x - of_int n
      in if r < 1 / 2 then n else if 1 / 2 < r then n + 1 else if even n then n else n + 1)"

definition pow2 :: "int \<Rightarrow> rat" where
  "pow2 k = (if 0 \<le> k then 2 ^ nat k else 1 / 2 ^ nat (- k))"

definition binade :: "rat \<Rightarrow> int" where
  "binade x =
     (let (p, q) = quotient_of \<bar>x\<bar>; k = bitlen p - bitlen q
      in if of_int q * pow2 k \<le> of_int p then k else k - 1)"

definition round64 :: "rat \<Rightarrow> rat" where
  "round64 x =
     (if x = 0 then 0
      else let ulp = pow2 (binade x - 52) in of_int (round_half_even (x / ulp)) * ulp)"

definition fadd :: "rat \<Rightarrow> rat \<Rightarrow> rat" where
  "fadd a b = round64 (a + b)"

text \<open>
  The builtin \<open>sum\<close> on floats: the items are added one by one, from the left, to the
  start value 0. (This is \<open>sum\<close> up to CPython 3.11. From 3.12 on, \<open>sum\<close> carries a
  correction term for floats; a sum of one item is the item in both.)
\<close>

definition sum_f64 :: "rat list \<Rightarrow> rat" where
  "sum_f64 xs = foldl fadd 0 xs"

definition spending_f64 :: "Bss \<Rightarrow> rat" where
  "spending_f64 self =
     sum_f64 [BssSpent.amount bss. bss \<leftarrow> elements self, BssSpent.category bss = Spending]"

definition bills_f64 :: "Bss \<Rightarrow> rat" where
  "bills_f64 self =
     sum_f64 [BssSpent.amount bss. bss \<leftarrow> elements self, BssSpent.category bss = Bills]"

definition savings_f64 :: "Bss \<Rightarrow> rat" where
  "savings_f64 self =
     sum_f64 [BssSpent.amount bss. bss \<leftarrow> elements self, BssSpent.category bss = Savings]"

definition total_f64 :: "Bss \<Rightarrow> rat" where
  "total_f64 self = sum_f64 [BssSpent.amount bss. bss \<leftarrow> elements self]"

text \<open>
  \<open>adds_exactly acc xs\<close>: adding the items of \<open>xs\<close> to \<open>acc\<close> one by one never rounds
  (each partial sum is a binary64 number).
\<close>

fun adds_exactly :: "rat \<Rightarrow> rat list \<Rightarrow> bool" where
  "adds_exactly acc [] = True"
| "adds_exactly acc (x # xs) = (round64 (acc + x) = acc + x \<and> adds_exactly (acc + x) xs)"

subsection \<open>The filtering overviews\<close>

record PaymentsOverview =
  category :: string
  amount :: rat

text \<open>
  \<open>from_row\<close> reads the governing cell first (\<open>row[1]\<close>), returns \<open>None\<close> on a zero
  amount, and only then reads \<open>row[0]\<close>.
\<close>

definition PaymentsOverview_from_row :: "string list \<Rightarrow> py_error + PaymentsOverview option" where
  "PaymentsOverview_from_row row =
     bind (getitem row 1) (\<lambda>c1.
     bind (parse_money (Some c1)) (\<lambda>a.
       if a = 0 then Inr None
       else bind (getitem row 0) (\<lambda>c0.
         Inr (Some \<lparr>PaymentsOverview.category = c0, PaymentsOverview.amount = a\<rparr>))))"

text \<open>
  \<open>[r for row in rows for r in [from_row(row)] if r is not None]\<close>: the rows in order,
  the first exception ending the comprehension.
\<close>

fun PaymentsOverview_from_range :: "string list list \<Rightarrow> py_error + PaymentsOverview list" where
  "PaymentsOverview_from_range [] = Inr []"
| "PaymentsOverview_from_range (row # rows) =
     bind (PaymentsOverview_from_row row) (\<lambda>r.
     bind (PaymentsOverview_from_range rows) (\<lambda>rs.
       Inr (case r of None \<Rightarrow> rs | Some x \<Rightarrow> x # rs)))"

record SavingsOverview =
  category :: string
  amount :: rat

definition SavingsOverview_from_row :: "string list \<Rightarrow> py_error + SavingsOverview option" where
  "SavingsOverview_from_row row =
     bind (getitem row 2) (\<lambda>c2.
     bind (parse_money (Some c2)) (\<lambda>a.
       if a = 0 then Inr None
       else bind (getitem row 0) (\<lambda>c0.
         Inr (Some \<lparr>SavingsOverview.category = c0, SavingsOverview.amount = a\<rparr>))))"

fun SavingsOverview_from_range :: "string list list \<Rightarrow> py_error + SavingsOverview list" where
  "SavingsOverview_from_range [] = Inr []"
| "SavingsOverview_from_range (row # rows) =
     bind (SavingsOverview_from_row row) (\<lambda>r.
     bind (SavingsOverview_from_range rows) (\<lambda>rs.
       Inr (case r of None \<Rightarrow> rs | Some x \<Rightarrow> x # rs)))"

record SpendableOverview =
  category :: string
  spendable_amount :: rat
  future_daily :: rat
  left_today :: rat

record TransferOverview =
  from_account :: string
  to_account :: string
  amount :: rat

definition TransferOverview_from_row :: "string list \<Rightarrow> py_error + TransferOverview option" where
  "TransferOverview_from_row row =
     bind (getitem row 2) (\<lambda>c2.
     bind (parse_money (Some c2)) (\<lambda>a.
       if a = 0 then Inr None
       else bind (getitem row 0) (\<lambda>c0.
            bind (getitem row 1) (\<lambda>c1.
         Inr (Some \<lparr>from_account = c0, to_account = c1, TransferOverview.amount = a\<rparr>)))))"

fun TransferOverview_from_range :: "string list list \<Rightarrow> py_error + TransferOverview list" where
  "TransferOverview_from_range [] = Inr []"
| "TransferOverview_from_range (row # rows) =
     bind (TransferOverview_from_row row) (\<lambda>r.
     bind (TransferOverview_from_range rows) (\<lambda>rs.
       Inr (case r of None \<Rightarrow> rs | Some x \<Rightarrow> x # rs)))"

subsection \<open>Budget: the budget line items\<close>

text \<open>
  A \<open>datetime.date\<close> is modelled by the number of days from \<open>date.min\<close> (0001-01-01)
  to it: Python orders dates by the calendar, which is the order of these numbers, and
  no date is before \<open>date.min\<close>.
\<close>

type_synonym date = nat

definition date_min :: date where
  "date_min = 0"

record Budget =
  category :: string
  subcategory :: "string option"
  amount :: rat
  timeframe :: rat
  description :: string
  expense_type :: ExpenseType
  paid_from :: "string option"
  next_approx_payment :: "date option"

text \<open>
  \<open>from_manual_budget_row\<close>: the cells are read in the order of the source (0, 2, 3, and
  1 last, inside the constructor call). \<open>match str(row[3])\<close> compares the cell with
  \<open>"FALSE"\<close> as it is, neither stripped nor case-folded.
\<close>

definition from_manual_budget_row :: "rat \<Rightarrow> string list \<Rightarrow> py_error + Budget" where
  "from_manual_budget_row period_size row =
     bind (getitem row 0) (\<lambda>c0.
     bind (getitem row 2) (\<lambda>c2.
     bind (getitem row 3) (\<lambda>c3.
     bind (getitem row 1) (\<lambda>c1.
     bind (parse_money (Some c1)) (\<lambda>a.
       Inr \<lparr>Budget.category = strip c0,
            subcategory = None,
            Budget.amount = a,
            timeframe = period_size,
            description = (if strip c2 \<noteq> [] then strip c0 @ '' / '' @ strip c2 else strip c0),
            expense_type = (if c3 = ''FALSE'' then RequiredPayment else Expendable),
            paid_from = None,
            next_approx_payment = None\<rparr>)))))"

fun from_manual_budget_range :: "rat \<Rightarrow> string list list \<Rightarrow> py_error + Budget list" where
  "from_manual_budget_range period_size [] = Inr []"
| "from_manual_budget_range period_size (row # rows) =
     bind (from_manual_budget_row period_size row) (\<lambda>b.
     bind (from_manual_budget_range period_size rows) (\<lambda>bs. Inr (b # bs)))"

text \<open>
  The category of a subcategory: \<open>for cat in cat2subcat\<close> walks the keys in insertion
  order and stops at the first whose list holds the subcategory. The dictionary is an
  association list in that order. \<open>if not category\<close> raises both when no key matches
  and when the matching key is the empty string.
\<close>

definition find_category :: "(string \<times> string list) list \<Rightarrow> string \<Rightarrow> py_error + string" where
  "find_category cat2subcat sub =
     (case find (\<lambda>cat. case map_of cat2subcat cat of
                           None \<Rightarrow> False
                         | Some subs \<Rightarrow> sub \<in> set subs) (map fst cat2subcat) of
        None \<Rightarrow> Inl Exception
      | Some cat \<Rightarrow> if cat = [] then Inl Exception else Inr cat)"

text \<open>
  \<open>from_recurring_budget_row\<close>. Two library calls are parameters: \<open>py_float\<close> is the
  builtin \<open>float\<close> on arbitrary text (the time frame cell), and \<open>strptime\<close> is
  \<open>datetime.strptime(text, "%m/%d/%Y").date()\<close>. Statements run in the order of the
  source, so the first failing one decides the exception.
\<close>

definition from_recurring_budget_row ::
  "(string \<Rightarrow> py_error + rat) \<Rightarrow> (string \<Rightarrow> py_error + date) \<Rightarrow>
   (string \<times> string list) list \<Rightarrow> string list \<Rightarrow> py_error + Budget" where
  "from_recurring_budget_row py_float strptime cat2subcat row =
     bind (getitem row 0) (\<lambda>c0.
     bind (getitem row 1) (\<lambda>c1.
     bind (getitem row 2) (\<lambda>c2.
     bind (parse_money (Some c2)) (\<lambda>a.
     bind (getitem row 3) (\<lambda>c3.
     bind (py_float c3) (\<lambda>tf.
     bind (getitem row 4) (\<lambda>c4.
     bind (getitem row 5) (\<lambda>c5.
     bind (getitem row 7) (\<lambda>c7.
     bind (strptime (strip c7)) (\<lambda>d.
     bind (find_category cat2subcat (strip c0)) (\<lambda>cat.
       Inr \<lparr>Budget.category = cat,
            subcategory = Some (strip c0),
            Budget.amount = a,
            timeframe = tf,
            description = strip c1,
            expense_type = (if c4 = ''FALSE'' then RequiredPayment else Saving),
            paid_from = Some (strip c5),
            next_approx_payment = Some d\<rparr>)))))))))))"

fun from_recurring_budget_range ::
  "(string \<Rightarrow> py_error + rat) \<Rightarrow> (string \<Rightarrow> py_error + date) \<Rightarrow>
   (string \<times> string list) list \<Rightarrow> string list list \<Rightarrow> py_error + Budget list" where
  "from_recurring_budget_range py_float strptime cat2subcat [] = Inr []"
| "from_recurring_budget_range py_float strptime cat2subcat (row # rows) =
     bind (from_recurring_budget_row py_float strptime cat2subcat row) (\<lambda>b.
     bind (from_recurring_budget_range py_float strptime cat2subcat rows) (\<lambda>bs. Inr (b # bs)))"

text \<open>
  The budgets of \<open>main\<close>: the manual items, then the recurring ones, then
  \<open>budgets.sort(key=lambda b: b.next_approx_payment or date.min)\<close>. A date is always
  true in Python, so the key is the date itself, and \<open>date.min\<close> for \<open>None\<close>.
  \<open>list.sort\<close> is stable and ascending; \<open>sort_key\<close> is the stable insertion sort, and
  a stable sort's result is unique.
\<close>

definition budget_sort_key :: "Budget \<Rightarrow> date" where
  "budget_sort_key b = (case next_approx_payment b of None \<Rightarrow> date_min | Some d \<Rightarrow> d)"

definition sort_budgets :: "Budget list \<Rightarrow> Budget list" where
  "sort_budgets budgets = sort_key budget_sort_key budgets"

definition main_budgets ::
  "(string \<Rightarrow> py_error + rat) \<Rightarrow> (string \<Rightarrow> py_error + date) \<Rightarrow> rat \<Rightarrow>
   (string \<times> string list) list \<Rightarrow> string list list \<Rightarrow> string list list \<Rightarrow>
   py_error + Budget list" where
  "main_budgets py_float strptime period_size cat2subcat manual_rows recurring_rows =
     bind (from_manual_budget_range period_size manual_rows) (\<lambda>manual.
     bind (from_recurring_budget_range py_float strptime cat2subcat recurring_rows) (\<lambda>recurring.
       Inr (sort_budgets (manual @ recurring))))"

subsection \<open>AccountBalance\<close>

record AccountBalance =
  name :: string
  amount_manual :: rat
  amount_calc :: rat
  amount_diff :: rat

definition AccountBalance_from_row :: "string list \<Rightarrow> py_error + AccountBalance" where
  "AccountBalance_from_row row =
     bind (getitem row 0) (\<lambda>c0.
     bind (getitem row 2) (\<lambda>c2.
     bind (parse_money (Some c2)) (\<lambda>calc.
     bind (getitem row 3) (\<lambda>c3.
     bind (parse_money (Some c3)) (\<lambda>manual.
       Inr \<lparr>name = strip c0,
            amount_manual = manual,
            amount_calc = calc,
            amount_diff = manual - calc\<rparr>)))))"

text \<open>The \<open>for row in rows\<close> loop of \<open>AccountBalance.from_rows\<close>, appending to \<open>result\<close>.\<close>

fun AccountBalance_from_rows :: "string list list \<Rightarrow> py_error + AccountBalance list" where
  "AccountBalance_from_rows [] = Inr []"
| "AccountBalance_from_rows (row # rows) =
     bind (AccountBalance_from_row row) (\<lambda>b.
     bind (AccountBalance_from_rows rows) (\<lambda>bs. Inr (b # bs)))"

subsection \<open>BudgetStats\<close>

record BudgetStats =
  income_account :: string
  total_budget :: rat
  income_at_period_start :: rat
  checking_amount_period_start :: rat
  total_withheld_required_payments :: rat
  total_withheld_savings :: rat
  balance_after_withheld :: rat
  budget_after_withheld :: rat
  allocated_spending_budget :: rat
  balance_after_withheld_and_spending :: rat
  budget_after_withheld_and_spending :: rat
  budget_after_withheld_and_spent :: rat
  overspent_soft :: bool
  overspent_hard :: bool
  checking_floor :: rat
  free_to_spend :: rat

text \<open>\<open>rows[k][0]\<close>: either index can be out of range.\<close>

definition cell_at :: "string list list \<Rightarrow> nat \<Rightarrow> py_error + string" where
  "cell_at rows k = bind (getitem rows k) (\<lambda>row. getitem row 0)"

text \<open>\<open>parse_money(rows[k][0])\<close>.\<close>

definition money_at :: "string list list \<Rightarrow> nat \<Rightarrow> py_error + rat" where
  "money_at rows k = bind (cell_at rows k) (\<lambda>c. parse_money (Some c))"

text \<open>\<open>rows[k][0].strip().upper() == "TRUE"\<close>.\<close>

definition flag_at :: "string list list \<Rightarrow> nat \<Rightarrow> py_error + bool" where
  "flag_at rows k = bind (cell_at rows k) (\<lambda>c. Inr (upper (strip c) = codepoints ''TRUE''))"

text \<open>
  \<open>BudgetStats.from_rows\<close>: the keyword arguments of the constructor call are evaluated
  from the first to the last, so the first cell that fails decides the exception.
\<close>

definition BudgetStats_from_rows :: "string list list \<Rightarrow> py_error + BudgetStats" where
  "BudgetStats_from_rows rows =
     bind (cell_at rows 0) (\<lambda>c0.
     bind (money_at rows 3) (\<lambda>v3.
     bind (money_at rows 5) (\<lambda>v5.
     bind (money_at rows 7) (\<lambda>v7.
     bind (money_at rows 9) (\<lambda>v9.
     bind (money_at rows 11) (\<lambda>v11.
     bind (money_at rows 13) (\<lambda>v13.
     bind (money_at rows 15) (\<lambda>v15.
     bind (money_at rows 17) (\<lambda>v17.
     bind (money_at rows 19) (\<lambda>v19.
     bind (money_at rows 21) (\<lambda>v21.
     bind (money_at rows 23) (\<lambda>v23.
     bind (flag_at rows 25) (\<lambda>f25.
     bind (flag_at rows 27) (\<lambda>f27.
     bind (money_at rows 29) (\<lambda>v29.
     bind (money_at rows 31) (\<lambda>v31.
       Inr \<lparr>income_account = strip c0,
            total_budget = v3,
            income_at_period_start = v5,
            checking_amount_period_start = v7,
            total_withheld_required_payments = v9,
            total_withheld_savings = v11,
            balance_after_withheld = v13,
            budget_after_withheld = v15,
            allocated_spending_budget = v17,
            balance_after_withheld_and_spending = v19,
            budget_after_withheld_and_spending = v21,
            budget_after_withheld_and_spent = v23,
            overspent_soft = f25,
            overspent_hard = f27,
            checking_floor = v29,
            free_to_spend = v31\<rparr>))))))))))))))))"

subsection \<open>Summary and the overflow computation of its render step\<close>

record BudgetMetadata =
  name :: string
  spreadsheet_url :: string

record Summary =
  meta :: BudgetMetadata
  start_date :: date
  end_date :: date
  period_size :: rat
  spent_categorized :: Bss
  account_balances :: "AccountBalance list"
  transfer_overviews :: "TransferOverview list"
  spendable_overviews :: "SpendableOverview list"
  payments_overviews :: "PaymentsOverview list"
  savings_overviews :: "SavingsOverview list"
  budgets :: "Budget list"
  budget_stats :: BudgetStats
  time :: string
  horoscope :: "string option"
  horoscope_url :: "string option"
  custom_alert :: "string option"

text \<open>
  The local variables of \<open>Summary.to_email_html\<close> that make up the overflow
  computation, each as a function of \<open>self\<close>. \<open>overflow_pct\<close> is assigned twice in the
  source: the conditional expression, then \<open>max(overflow_pct, 0)\<close>.
\<close>

definition bills_overspent :: "Summary \<Rightarrow> rat" where
  "bills_overspent self =
     max 0 (bills (spent_categorized self)
            - total_withheld_required_payments (budget_stats self))"

definition savings_overspent :: "Summary \<Rightarrow> rat" where
  "savings_overspent self =
     max 0 (savings (spent_categorized self) - total_withheld_savings (budget_stats self))"

definition spending_overspent :: "Summary \<Rightarrow> rat" where
  "spending_overspent self =
     max 0 (spending (spent_categorized self) - allocated_spending_budget (budget_stats self))"

definition overflow_consumed :: "Summary \<Rightarrow> rat" where
  "overflow_consumed self =
     bills_overspent self + savings_overspent self + spending_overspent self"

definition overflow_available :: "Summary \<Rightarrow> rat" where
  "overflow_available self = budget_after_withheld_and_spending (budget_stats self)"

definition overflow_pct :: "Summary \<Rightarrow> rat" where
  "overflow_pct self =
     max (if overflow_available self > 0
          then overflow_consumed self / overflow_available self * 100
          else 0) 0"

section \<open>Money parsing\<close>











lemmas parse_money_eval =
  parse_money_def re_sub_money_def is_digit_def float_of_residue_def float_unsigned_def
  digits_value_def bind_def



section \<open>Exceptions and indexing\<close>

lemma bind_Inr_iff: "(bind m f = Inr y) = (\<exists>x. m = Inr x \<and> f x = Inr y)"
  by (cases m) (simp_all add: bind_def)

lemma bind_Inl_iff: "(bind m f = Inl e) = (m = Inl e \<or> (\<exists>x. m = Inr x \<and> f x = Inl e))"
  by (cases m) (simp_all add: bind_def)

lemma bind_Inr [simp]: "bind (Inr x) f = f x"
  by (simp add: bind_def)

lemma bind_Inl [simp]: "bind (Inl e) f = Inl e"
  by (simp add: bind_def)

lemma getitem_Inr_iff: "(getitem xs i = Inr x) = (i < length xs \<and> xs ! i = x)"
  by (auto simp: getitem_def)

lemma getitem_Inl_iff: "(getitem xs i = Inl e) = (length xs \<le> i \<and> e = IndexError)"
  by (auto simp: getitem_def)

section \<open>The overflow computation\<close>

lemma overspent_nonneg:
  "0 \<le> bills_overspent s" "0 \<le> savings_overspent s" "0 \<le> spending_overspent s"
  by (simp_all add: bills_overspent_def savings_overspent_def spending_overspent_def)

lemma overflow_consumed_nonneg: "0 \<le> overflow_consumed s"
  using overspent_nonneg [of s] by (simp add: overflow_consumed_def)

lemma overflow_pct_formula:
  "overflow_pct s = (if 0 < overflow_available s
                     then overflow_consumed s / overflow_available s * 100 else 0)"
proof (cases "0 < overflow_available s")
  case True
  then have "0 \<le> overflow_consumed s / overflow_available s * 100"
    using overflow_consumed_nonneg [of s] by simp
  with True show ?thesis by (simp add: overflow_pct_def)
next
  case False
  then show ?thesis by (simp add: overflow_pct_def)
qed

lemma overflow_pct_nonneg: "0 \<le> overflow_pct s"
  by (simp add: overflow_pct_def)

text \<open>
  C1. In the render step, each bucket's overspend is \<open>max(0, spend - allowance)\<close> with
  the allowances \<open>total_withheld_required_payments\<close> (Bills), \<open>total_withheld_savings\<close>
  (Savings) and \<open>allocated_spending_budget\<close> (Spending); \<open>overflow_consumed\<close> is their
  sum; \<open>overflow_pct\<close> is \<open>overflow_consumed / overflow_available * 100\<close> when
  \<open>overflow_available > 0\<close> and 0 otherwise; it is never negative, and a value above 100
  is kept as it is.
\<close>

theorem overflow_computation:
  "bills_overspent s
     = max 0 (bills (spent_categorized s) - total_withheld_required_payments (budget_stats s))
   \<and> savings_overspent s
     = max 0 (savings (spent_categorized s) - total_withheld_savings (budget_stats s))
   \<and> spending_overspent s
     = max 0 (spending (spent_categorized s) - allocated_spending_budget (budget_stats s))
   \<and> overflow_consumed s = bills_overspent s + savings_overspent s + spending_overspent s
   \<and> overflow_available s = budget_after_withheld_and_spending (budget_stats s)
   \<and> overflow_pct s = (if 0 < overflow_available s
                       then overflow_consumed s / overflow_available s * 100 else 0)
   \<and> 0 \<le> overflow_pct s
   \<and> (0 < overflow_available s \<and> 100 < overflow_consumed s / overflow_available s * 100 \<longrightarrow>
        100 < overflow_pct s
        \<and> overflow_pct s = overflow_consumed s / overflow_available s * 100)"
proof -
  have "0 < overflow_available s \<and> 100 < overflow_consumed s / overflow_available s * 100 \<longrightarrow>
        100 < overflow_pct s
        \<and> overflow_pct s = overflow_consumed s / overflow_available s * 100"
    by (simp add: overflow_pct_formula)
  moreover note overflow_pct_formula [of s] overflow_pct_nonneg [of s]
  ultimately show ?thesis
    by (simp add: bills_overspent_def savings_overspent_def spending_overspent_def
        overflow_consumed_def overflow_available_def)
qed

theorem overflow_computation_witness:
  "(let s = \<lparr>meta = \<lparr>BudgetMetadata.name = ''A'', spreadsheet_url = ''u''\<rparr>,
        start_date = 739000, end_date = 739013, period_size = 14,
        spent_categorized = \<lparr>elements =
          [\<lparr>BssSpent.category = Bills, BssSpent.amount = 600\<rparr>,
           \<lparr>BssSpent.category = Savings, BssSpent.amount = 200\<rparr>,
           \<lparr>BssSpent.category = Spending, BssSpent.amount = 150\<rparr>]\<rparr>,
        account_balances = [], transfer_overviews = [], spendable_overviews = [],
        payments_overviews = [], savings_overviews = [], budgets = [],
        budget_stats = \<lparr>income_account = ''Checking'', total_budget = 2000,
          income_at_period_start = 2000, checking_amount_period_start = 2500,
          total_withheld_required_payments = 500, total_withheld_savings = 200,
          balance_after_withheld = 1800, budget_after_withheld = 1300,
          allocated_spending_budget = 300, balance_after_withheld_and_spending = 1500,
          budget_after_withheld_and_spending = 40, budget_after_withheld_and_spent = 850,
          overspent_soft = False, overspent_hard = False, checking_floor = 100,
          free_to_spend = 0\<rparr>,
        time = ''morning'', horoscope = None, horoscope_url = None, custom_alert = None\<rparr>
    in 0 < overflow_available s
       \<and> 100 < overflow_consumed s / overflow_available s * 100
       \<and> bills_overspent s = 100
       \<and> overflow_consumed s = 100
       \<and> overflow_pct s = 250)"
proof -
  define s where "s = \<lparr>meta = \<lparr>BudgetMetadata.name = ''A'', spreadsheet_url = ''u''\<rparr>,
        start_date = 739000, end_date = 739013, period_size = 14,
        spent_categorized = \<lparr>elements =
          [\<lparr>BssSpent.category = Bills, BssSpent.amount = 600\<rparr>,
           \<lparr>BssSpent.category = Savings, BssSpent.amount = 200\<rparr>,
           \<lparr>BssSpent.category = Spending, BssSpent.amount = 150\<rparr>]\<rparr>,
        account_balances = [], transfer_overviews = [], spendable_overviews = [],
        payments_overviews = [], savings_overviews = [], budgets = [],
        budget_stats = \<lparr>income_account = ''Checking'', total_budget = 2000,
          income_at_period_start = 2000, checking_amount_period_start = 2500,
          total_withheld_required_payments = 500, total_withheld_savings = 200,
          balance_after_withheld = 1800, budget_after_withheld = 1300,
          allocated_spending_budget = 300, balance_after_withheld_and_spending = 1500,
          budget_after_withheld_and_spending = 40, budget_after_withheld_and_spent = 850,
          overspent_soft = False, overspent_hard = False, checking_floor = 100,
          free_to_spend = 0\<rparr>,
        time = ''morning'', horoscope = None, horoscope_url = None, custom_alert = None\<rparr>"
  have sp: "bills (spent_categorized s) = 600" "savings (spent_categorized s) = 200"
    "spending (spent_categorized s) = 150"
    by (simp_all add: s_def bills_def savings_def spending_def)
  have st: "total_withheld_required_payments (budget_stats s) = 500"
    "total_withheld_savings (budget_stats s) = 200"
    "allocated_spending_budget (budget_stats s) = 300"
    "budget_after_withheld_and_spending (budget_stats s) = 40"
    by (simp_all add: s_def)
  note t = overflow_computation [of s]
  from t sp st have o: "bills_overspent s = 100" "savings_overspent s = 0"
    "spending_overspent s = 0"
    by simp_all
  from t o have c: "overflow_consumed s = 100" by simp
  from t st have a: "overflow_available s = 40" by simp
  from c a have h: "0 < overflow_available s"
    "100 < overflow_consumed s / overflow_available s * 100"
    by simp_all
  with t have "overflow_pct s = overflow_consumed s / overflow_available s * 100" by blast
  with c a have p: "overflow_pct s = 250" by simp
  from h o c p show ?thesis unfolding Let_def s_def by blast
qed

section \<open>Account balances\<close>

lemma AccountBalance_from_row_Inr:
  assumes "AccountBalance_from_row row = Inr b"
  shows "3 < length row \<and> AccountBalance.name b = strip (row ! 0)
         \<and> parse_money (Some (row ! 2)) = Inr (amount_calc b)
         \<and> parse_money (Some (row ! 3)) = Inr (amount_manual b)
         \<and> amount_diff b = amount_manual b - amount_calc b"
  using assms unfolding AccountBalance_from_row_def
  by (auto simp: bind_Inr_iff getitem_Inr_iff)

text \<open>
  C8. Every \<open>AccountBalance\<close> that \<open>AccountBalance.from_rows\<close> builds has
  \<open>amount_diff = amount_manual - amount_calc\<close>, where the two amounts are the parsed
  cells 3 and 2 of its row: the difference is computed from them, and no cell of the input
  is read for it.
\<close>

theorem account_balance_diff_derived:
  assumes "AccountBalance_from_rows rows = Inr out"
  shows "(\<forall>b \<in> set out. amount_diff b = amount_manual b - amount_calc b)
         \<and> list_all2 (\<lambda>row b. 3 < length row
               \<and> AccountBalance.name b = strip (row ! 0)
               \<and> parse_money (Some (row ! 2)) = Inr (amount_calc b)
               \<and> parse_money (Some (row ! 3)) = Inr (amount_manual b)
               \<and> amount_diff b = amount_manual b - amount_calc b) rows out"
  using assms
proof (induction rows arbitrary: out)
  case Nil
  then show ?case by simp
next
  case (Cons row rows)
  from Cons.prems obtain b bs where
    b: "AccountBalance_from_row row = Inr b" and
    bs: "AccountBalance_from_rows rows = Inr bs" and
    out: "out = b # bs"
    by (auto simp: bind_Inr_iff)
  from AccountBalance_from_row_Inr [OF b] Cons.IH [OF bs] out
  show ?case by simp
qed

theorem account_balance_diff_derived_witness:
  "AccountBalance_from_rows [[''Checking '', ''$5'', ''$100.50'', ''$90'']]
     = Inr [\<lparr>AccountBalance.name = ''Checking'', amount_manual = 90,
             amount_calc = 201 / 2, amount_diff = - (21 / 2)\<rparr>]
   \<and> amount_diff \<lparr>AccountBalance.name = ''Checking'', amount_manual = 90,
             amount_calc = 201 / 2, amount_diff = - (21 / 2)\<rparr> = 90 - 201 / 2"
proof -
  have r: "AccountBalance_from_rows [[''Checking '', ''$5'', ''$100.50'', ''$90'']]
     = Inr [\<lparr>AccountBalance.name = ''Checking'', amount_manual = 90,
             amount_calc = 201 / 2, amount_diff = - (21 / 2)\<rparr>]"
    by (simp add: AccountBalance_from_row_def getitem_def parse_money_eval strip_def isspace_def)
  from account_balance_diff_derived [OF r] r show ?thesis by simp
qed

section \<open>Budget line items: the expense type\<close>

lemma from_manual_budget_row_Inr:
  assumes "from_manual_budget_row p row = Inr b"
  shows "3 < length row \<and> parse_money (Some (row ! 1)) = Inr (Budget.amount b)
     \<and> expense_type b = (if row ! 3 = ''FALSE'' then RequiredPayment else Expendable)
     \<and> next_approx_payment b = None"
  using assms unfolding from_manual_budget_row_def
  by (auto simp: bind_Inr_iff getitem_Inr_iff)

lemma from_manual_budget_row_ok:
  assumes "3 < length row" "parse_money (Some (row ! 1)) = Inr a"
  shows "\<exists>b. from_manual_budget_row p row = Inr b"
  using assms unfolding from_manual_budget_row_def
  by (auto simp: getitem_def)

lemma from_recurring_budget_row_Inr:
  assumes "from_recurring_budget_row fl sp d row = Inr b"
  shows "7 < length row
     \<and> expense_type b = (if row ! 4 = ''FALSE'' then RequiredPayment else Saving)
     \<and> (\<exists>dt. next_approx_payment b = Some dt \<and> sp (strip (row ! 7)) = Inr dt)"
  using assms unfolding from_recurring_budget_row_def
  by (auto simp: bind_Inr_iff getitem_Inr_iff)

lemma from_recurring_budget_row_ok:
  assumes "7 < length row" "parse_money (Some (row ! 2)) = Inr a" "fl (row ! 3) = Inr tf"
    "sp (strip (row ! 7)) = Inr dt" "find_category d (strip (row ! 0)) = Inr cat"
  shows "\<exists>b. from_recurring_budget_row fl sp d row = Inr b"
  using assms unfolding from_recurring_budget_row_def
  by (auto simp: getitem_def)

text \<open>
  C9. The flag cell decides the expense type by an exact, case-sensitive comparison with
  \<open>"FALSE"\<close>. On the manual path, a row that yields a budget yields \<open>RequiredPayment\<close>
  when cell 3 is exactly \<open>FALSE\<close> and \<open>Expendable\<close> for every other text (\<open>false\<close>,
  \<open>False\<close>, the empty text); on the recurring path cell 4 gives \<open>RequiredPayment\<close> for
  exactly \<open>FALSE\<close> and \<open>Saving\<close> otherwise. A row with enough cells whose other cells
  parse does yield a budget.
\<close>

theorem expense_type_flag:
  "(from_manual_budget_row p row = Inr b \<longrightarrow>
      expense_type b = (if row ! 3 = ''FALSE'' then RequiredPayment else Expendable))
   \<and> (3 < length row \<and> parse_money (Some (row ! 1)) = Inr a \<longrightarrow>
      (\<exists>b. from_manual_budget_row p row = Inr b))
   \<and> (from_recurring_budget_row fl sp d row' = Inr b' \<longrightarrow>
      expense_type b' = (if row' ! 4 = ''FALSE'' then RequiredPayment else Saving))
   \<and> (7 < length row' \<and> parse_money (Some (row' ! 2)) = Inr a' \<and> fl (row' ! 3) = Inr tf
        \<and> sp (strip (row' ! 7)) = Inr dt \<and> find_category d (strip (row' ! 0)) = Inr cat \<longrightarrow>
      (\<exists>b. from_recurring_budget_row fl sp d row' = Inr b))"
  using from_manual_budget_row_Inr [of p row b] from_manual_budget_row_ok [of row a p]
    from_recurring_budget_row_Inr [of fl sp d row' b']
    from_recurring_budget_row_ok [of row' a' fl tf sp dt d cat]
  by blast


lemmas text_eval = strip_def isspace_def lower_def lower_char_def char_of_def bit_Suc_0_iff

theorem expense_type_flag_witness:
  "from_manual_budget_row 14 [''Food'', ''$10'', '''', ''false'']
     = Inr \<lparr>Budget.category = ''Food'', subcategory = None, Budget.amount = 10, timeframe = 14,
            description = ''Food'', expense_type = Expendable, paid_from = None,
            next_approx_payment = None\<rparr>
   \<and> [''Food'', ''$10'', '''', ''false''] ! 3 \<noteq> ''FALSE''
   \<and> 3 < length [''Food'', ''$10'', '''', ''false'']
   \<and> parse_money (Some ([''Food'', ''$10'', '''', ''false''] ! 1)) = Inr 10
   \<and> from_recurring_budget_row (\<lambda>s. Inr 30) (\<lambda>s. Inr 5) [(''Home'', [''Rent''])]
         [''Rent'', ''flat'', ''$900'', ''30'', ''FALSE'', ''Checking'', '''', ''01/02/2026'']
     = Inr \<lparr>Budget.category = ''Home'', subcategory = Some ''Rent'', Budget.amount = 900,
            timeframe = 30, description = ''flat'', expense_type = RequiredPayment,
            paid_from = Some ''Checking'', next_approx_payment = Some 5\<rparr>
   \<and> [''Rent'', ''flat'', ''$900'', ''30'', ''FALSE'', ''Checking'', '''', ''01/02/2026''] ! 4 = ''FALSE''"
proof -
  let ?m = "[''Food'', ''$10'', '''', ''false'']"
  let ?r = "[''Rent'', ''flat'', ''$900'', ''30'', ''FALSE'', ''Checking'', '''', ''01/02/2026'']"
  let ?bm = "\<lparr>Budget.category = ''Food'', subcategory = None, Budget.amount = 10, timeframe = 14,
            description = ''Food'', expense_type = Expendable, paid_from = None,
            next_approx_payment = None\<rparr>"
  let ?br = "\<lparr>Budget.category = ''Home'', subcategory = Some ''Rent'', Budget.amount = 900,
            timeframe = 30, description = ''flat'', expense_type = RequiredPayment,
            paid_from = Some ''Checking'', next_approx_payment = Some 5\<rparr>"
  have m: "from_manual_budget_row 14 ?m = Inr ?bm"
    by (simp add: from_manual_budget_row_def getitem_def parse_money_eval text_eval)
  have r: "from_recurring_budget_row (\<lambda>s. Inr 30) (\<lambda>s. Inr 5) [(''Home'', [''Rent''])] ?r = Inr ?br"
    by (simp add: from_recurring_budget_row_def getitem_def parse_money_eval text_eval
        find_category_def)
  have p: "parse_money (Some (?m ! 1)) = Inr 10"
    by (simp add: parse_money_eval)
  from m r p
    expense_type_flag [of 14 ?m ?bm 10 "\<lambda>s. Inr 30" "\<lambda>s. Inr 5" "[(''Home'', [''Rent''])]" ?r ?br]
  show ?thesis by simp
qed

section \<open>The filtering mappers\<close>

lemma PaymentsOverview_from_row_cases:
  assumes "1 < length row"
  shows "PaymentsOverview_from_row row =
           (case parse_money (Some (row ! 1)) of
              Inl e \<Rightarrow> Inl e
            | Inr a \<Rightarrow> if a = 0 then Inr None else Inr (Some \<lparr>PaymentsOverview.category = row ! 0, PaymentsOverview.amount = a\<rparr>))"
  using assms by (auto simp: PaymentsOverview_from_row_def getitem_def split: sum.split)

lemma PaymentsOverview_from_row_Inr:
  assumes "PaymentsOverview_from_row row = Inr r"
  shows "1 < length row \<and> (\<exists>a. parse_money (Some (row ! 1)) = Inr a
           \<and> r = (if a = 0 then None else Some \<lparr>PaymentsOverview.category = row ! 0, PaymentsOverview.amount = a\<rparr>))"
  using assms unfolding PaymentsOverview_from_row_def
  by (auto simp: bind_Inr_iff getitem_Inr_iff split: if_splits)

lemma PaymentsOverview_from_range_Inr:
  assumes "PaymentsOverview_from_range rows = Inr out"
  shows "out = List.map_filter (\<lambda>row. case parse_money (Some (row ! 1)) of
                  Inl e \<Rightarrow> None
                | Inr a \<Rightarrow> if a = 0 then None else Some \<lparr>PaymentsOverview.category = row ! 0, PaymentsOverview.amount = a\<rparr>) rows"
  using assms
proof (induction rows arbitrary: out)
  case Nil
  then show ?case by (simp add: List.map_filter_simps)
next
  case (Cons row rows)
  from Cons.prems obtain r rs where
    r: "PaymentsOverview_from_row row = Inr r" and
    rs: "PaymentsOverview_from_range rows = Inr rs" and
    out: "out = (case r of None \<Rightarrow> rs | Some x \<Rightarrow> x # rs)"
    by (auto simp: bind_Inr_iff)
  from PaymentsOverview_from_row_Inr [OF r] obtain a where
    a: "parse_money (Some (row ! 1)) = Inr a" and
    ra: "r = (if a = 0 then None else Some \<lparr>PaymentsOverview.category = row ! 0, PaymentsOverview.amount = a\<rparr>)"
    by blast
  from Cons.IH [OF rs] a ra out show ?case
    by (simp add: List.map_filter_simps)
qed

lemma PaymentsOverview_from_range_Inl:
  assumes "row \<in> set rows" "PaymentsOverview_from_row row = Inl e"
  shows "\<exists>e'. PaymentsOverview_from_range rows = Inl e'"
  using assms
proof (induction rows)
  case Nil
  then show ?case by simp
next
  case (Cons r rows)
  show ?case
  proof (cases "PaymentsOverview_from_row r")
    case (Inl e0)
    then show ?thesis by simp
  next
    case (Inr x)
    with Cons.prems have "row \<in> set rows" by auto
    from Cons.IH [OF this Cons.prems(2)] obtain e' where
      "PaymentsOverview_from_range rows = Inl e'" by blast
    with Inr show ?thesis by simp
  qed
qed

lemma SavingsOverview_from_row_cases:
  assumes "2 < length row"
  shows "SavingsOverview_from_row row =
           (case parse_money (Some (row ! 2)) of
              Inl e \<Rightarrow> Inl e
            | Inr a \<Rightarrow> if a = 0 then Inr None else Inr (Some \<lparr>SavingsOverview.category = row ! 0, SavingsOverview.amount = a\<rparr>))"
  using assms by (auto simp: SavingsOverview_from_row_def getitem_def split: sum.split)

lemma SavingsOverview_from_row_Inr:
  assumes "SavingsOverview_from_row row = Inr r"
  shows "2 < length row \<and> (\<exists>a. parse_money (Some (row ! 2)) = Inr a
           \<and> r = (if a = 0 then None else Some \<lparr>SavingsOverview.category = row ! 0, SavingsOverview.amount = a\<rparr>))"
  using assms unfolding SavingsOverview_from_row_def
  by (auto simp: bind_Inr_iff getitem_Inr_iff split: if_splits)

lemma SavingsOverview_from_range_Inr:
  assumes "SavingsOverview_from_range rows = Inr out"
  shows "out = List.map_filter (\<lambda>row. case parse_money (Some (row ! 2)) of
                  Inl e \<Rightarrow> None
                | Inr a \<Rightarrow> if a = 0 then None else Some \<lparr>SavingsOverview.category = row ! 0, SavingsOverview.amount = a\<rparr>) rows"
  using assms
proof (induction rows arbitrary: out)
  case Nil
  then show ?case by (simp add: List.map_filter_simps)
next
  case (Cons row rows)
  from Cons.prems obtain r rs where
    r: "SavingsOverview_from_row row = Inr r" and
    rs: "SavingsOverview_from_range rows = Inr rs" and
    out: "out = (case r of None \<Rightarrow> rs | Some x \<Rightarrow> x # rs)"
    by (auto simp: bind_Inr_iff)
  from SavingsOverview_from_row_Inr [OF r] obtain a where
    a: "parse_money (Some (row ! 2)) = Inr a" and
    ra: "r = (if a = 0 then None else Some \<lparr>SavingsOverview.category = row ! 0, SavingsOverview.amount = a\<rparr>)"
    by blast
  from Cons.IH [OF rs] a ra out show ?case
    by (simp add: List.map_filter_simps)
qed

lemma SavingsOverview_from_range_Inl:
  assumes "row \<in> set rows" "SavingsOverview_from_row row = Inl e"
  shows "\<exists>e'. SavingsOverview_from_range rows = Inl e'"
  using assms
proof (induction rows)
  case Nil
  then show ?case by simp
next
  case (Cons r rows)
  show ?case
  proof (cases "SavingsOverview_from_row r")
    case (Inl e0)
    then show ?thesis by simp
  next
    case (Inr x)
    with Cons.prems have "row \<in> set rows" by auto
    from Cons.IH [OF this Cons.prems(2)] obtain e' where
      "SavingsOverview_from_range rows = Inl e'" by blast
    with Inr show ?thesis by simp
  qed
qed

lemma TransferOverview_from_row_cases:
  assumes "2 < length row"
  shows "TransferOverview_from_row row =
           (case parse_money (Some (row ! 2)) of
              Inl e \<Rightarrow> Inl e
            | Inr a \<Rightarrow> if a = 0 then Inr None else Inr (Some \<lparr>from_account = row ! 0, to_account = row ! 1, TransferOverview.amount = a\<rparr>))"
  using assms by (auto simp: TransferOverview_from_row_def getitem_def split: sum.split)

lemma TransferOverview_from_row_Inr:
  assumes "TransferOverview_from_row row = Inr r"
  shows "2 < length row \<and> (\<exists>a. parse_money (Some (row ! 2)) = Inr a
           \<and> r = (if a = 0 then None else Some \<lparr>from_account = row ! 0, to_account = row ! 1, TransferOverview.amount = a\<rparr>))"
  using assms unfolding TransferOverview_from_row_def
  by (auto simp: bind_Inr_iff getitem_Inr_iff split: if_splits)

lemma TransferOverview_from_range_Inr:
  assumes "TransferOverview_from_range rows = Inr out"
  shows "out = List.map_filter (\<lambda>row. case parse_money (Some (row ! 2)) of
                  Inl e \<Rightarrow> None
                | Inr a \<Rightarrow> if a = 0 then None else Some \<lparr>from_account = row ! 0, to_account = row ! 1, TransferOverview.amount = a\<rparr>) rows"
  using assms
proof (induction rows arbitrary: out)
  case Nil
  then show ?case by (simp add: List.map_filter_simps)
next
  case (Cons row rows)
  from Cons.prems obtain r rs where
    r: "TransferOverview_from_row row = Inr r" and
    rs: "TransferOverview_from_range rows = Inr rs" and
    out: "out = (case r of None \<Rightarrow> rs | Some x \<Rightarrow> x # rs)"
    by (auto simp: bind_Inr_iff)
  from TransferOverview_from_row_Inr [OF r] obtain a where
    a: "parse_money (Some (row ! 2)) = Inr a" and
    ra: "r = (if a = 0 then None else Some \<lparr>from_account = row ! 0, to_account = row ! 1, TransferOverview.amount = a\<rparr>)"
    by blast
  from Cons.IH [OF rs] a ra out show ?case
    by (simp add: List.map_filter_simps)
qed

lemma TransferOverview_from_range_Inl:
  assumes "row \<in> set rows" "TransferOverview_from_row row = Inl e"
  shows "\<exists>e'. TransferOverview_from_range rows = Inl e'"
  using assms
proof (induction rows)
  case Nil
  then show ?case by simp
next
  case (Cons r rows)
  show ?case
  proof (cases "TransferOverview_from_row r")
    case (Inl e0)
    then show ?thesis by simp
  next
    case (Inr x)
    with Cons.prems have "row \<in> set rows" by auto
    from Cons.IH [OF this Cons.prems(2)] obtain e' where
      "TransferOverview_from_range rows = Inl e'" by blast
    with Inr show ?thesis by simp
  qed
qed


lemma PaymentsOverview_from_range_ok:
  assumes "\<forall>row \<in> set rows. 1 < length row \<and> (\<exists>a. parse_money (Some (row ! 1)) = Inr a)"
  shows "PaymentsOverview_from_range rows
     = Inr (List.map_filter (\<lambda>row. case parse_money (Some (row ! 1)) of
                  Inl e \<Rightarrow> None
                | Inr a \<Rightarrow> if a = 0 then None else Some \<lparr>PaymentsOverview.category = row ! 0, PaymentsOverview.amount = a\<rparr>) rows)"
  using assms
proof (induction rows)
  case Nil
  then show ?case by (simp add: List.map_filter_simps)
next
  case (Cons row rows)
  then obtain a where l: "1 < length row" and a: "parse_money (Some (row ! 1)) = Inr a"
    by auto
  from PaymentsOverview_from_row_cases [OF l] a
  have r: "PaymentsOverview_from_row row = Inr (if a = 0 then None else Some \<lparr>PaymentsOverview.category = row ! 0, PaymentsOverview.amount = a\<rparr>)"
    by simp
  from Cons have "PaymentsOverview_from_range rows
     = Inr (List.map_filter (\<lambda>row. case parse_money (Some (row ! 1)) of
                  Inl e \<Rightarrow> None
                | Inr a \<Rightarrow> if a = 0 then None else Some \<lparr>PaymentsOverview.category = row ! 0, PaymentsOverview.amount = a\<rparr>) rows)"
    by simp
  with r a show ?case by (simp add: List.map_filter_simps)
qed

lemma PaymentsOverview_from_range_first_error:
  assumes "\<forall>r \<in> set pre. \<exists>x. PaymentsOverview_from_row r = Inr x" "PaymentsOverview_from_row row = Inl e"
  shows "PaymentsOverview_from_range (pre @ row # post) = Inl e"
  using assms by (induction pre) auto

lemma SavingsOverview_from_range_ok:
  assumes "\<forall>row \<in> set rows. 2 < length row \<and> (\<exists>a. parse_money (Some (row ! 2)) = Inr a)"
  shows "SavingsOverview_from_range rows
     = Inr (List.map_filter (\<lambda>row. case parse_money (Some (row ! 2)) of
                  Inl e \<Rightarrow> None
                | Inr a \<Rightarrow> if a = 0 then None else Some \<lparr>SavingsOverview.category = row ! 0, SavingsOverview.amount = a\<rparr>) rows)"
  using assms
proof (induction rows)
  case Nil
  then show ?case by (simp add: List.map_filter_simps)
next
  case (Cons row rows)
  then obtain a where l: "2 < length row" and a: "parse_money (Some (row ! 2)) = Inr a"
    by auto
  from SavingsOverview_from_row_cases [OF l] a
  have r: "SavingsOverview_from_row row = Inr (if a = 0 then None else Some \<lparr>SavingsOverview.category = row ! 0, SavingsOverview.amount = a\<rparr>)"
    by simp
  from Cons have "SavingsOverview_from_range rows
     = Inr (List.map_filter (\<lambda>row. case parse_money (Some (row ! 2)) of
                  Inl e \<Rightarrow> None
                | Inr a \<Rightarrow> if a = 0 then None else Some \<lparr>SavingsOverview.category = row ! 0, SavingsOverview.amount = a\<rparr>) rows)"
    by simp
  with r a show ?case by (simp add: List.map_filter_simps)
qed

lemma SavingsOverview_from_range_first_error:
  assumes "\<forall>r \<in> set pre. \<exists>x. SavingsOverview_from_row r = Inr x" "SavingsOverview_from_row row = Inl e"
  shows "SavingsOverview_from_range (pre @ row # post) = Inl e"
  using assms by (induction pre) auto

lemma TransferOverview_from_range_ok:
  assumes "\<forall>row \<in> set rows. 2 < length row \<and> (\<exists>a. parse_money (Some (row ! 2)) = Inr a)"
  shows "TransferOverview_from_range rows
     = Inr (List.map_filter (\<lambda>row. case parse_money (Some (row ! 2)) of
                  Inl e \<Rightarrow> None
                | Inr a \<Rightarrow> if a = 0 then None else Some \<lparr>from_account = row ! 0, to_account = row ! 1, TransferOverview.amount = a\<rparr>) rows)"
  using assms
proof (induction rows)
  case Nil
  then show ?case by (simp add: List.map_filter_simps)
next
  case (Cons row rows)
  then obtain a where l: "2 < length row" and a: "parse_money (Some (row ! 2)) = Inr a"
    by auto
  from TransferOverview_from_row_cases [OF l] a
  have r: "TransferOverview_from_row row = Inr (if a = 0 then None else Some \<lparr>from_account = row ! 0, to_account = row ! 1, TransferOverview.amount = a\<rparr>)"
    by simp
  from Cons have "TransferOverview_from_range rows
     = Inr (List.map_filter (\<lambda>row. case parse_money (Some (row ! 2)) of
                  Inl e \<Rightarrow> None
                | Inr a \<Rightarrow> if a = 0 then None else Some \<lparr>from_account = row ! 0, to_account = row ! 1, TransferOverview.amount = a\<rparr>) rows)"
    by simp
  with r a show ?case by (simp add: List.map_filter_simps)
qed

lemma TransferOverview_from_range_first_error:
  assumes "\<forall>r \<in> set pre. \<exists>x. TransferOverview_from_row r = Inr x" "TransferOverview_from_row row = Inl e"
  shows "TransferOverview_from_range (pre @ row # post) = Inl e"
  using assms by (induction pre) auto

lemma filtering_mappers_rows:
  "(1 < length row \<and> parse_money (Some (row ! 1)) = Inr 0 \<longrightarrow>
      PaymentsOverview_from_row row = Inr None)
   \<and> (1 < length row \<and> parse_money (Some (row ! 1)) = Inr a \<and> a \<noteq> 0 \<longrightarrow>
      PaymentsOverview_from_row row
        = Inr (Some \<lparr>PaymentsOverview.category = row ! 0, PaymentsOverview.amount = a\<rparr>))
   \<and> (1 < length row \<and> parse_money (Some (row ! 1)) = Inl e \<longrightarrow>
      PaymentsOverview_from_row row = Inl e)
   \<and> (PaymentsOverview_from_range rows = Inr outp \<longrightarrow>
      outp = List.map_filter (\<lambda>row. case parse_money (Some (row ! 1)) of
                  Inl e \<Rightarrow> None
                | Inr a \<Rightarrow> if a = 0 then None
                           else Some \<lparr>PaymentsOverview.category = row ! 0,
                                      PaymentsOverview.amount = a\<rparr>) rows)
   \<and> (row \<in> set rows \<and> PaymentsOverview_from_row row = Inl e \<longrightarrow>
      (\<exists>e'. PaymentsOverview_from_range rows = Inl e'))
   \<and> (2 < length row \<and> parse_money (Some (row ! 2)) = Inr 0 \<longrightarrow>
      SavingsOverview_from_row row = Inr None \<and> TransferOverview_from_row row = Inr None)
   \<and> (2 < length row \<and> parse_money (Some (row ! 2)) = Inr a \<and> a \<noteq> 0 \<longrightarrow>
      SavingsOverview_from_row row
        = Inr (Some \<lparr>SavingsOverview.category = row ! 0, SavingsOverview.amount = a\<rparr>)
      \<and> TransferOverview_from_row row
        = Inr (Some \<lparr>from_account = row ! 0, to_account = row ! 1,
                      TransferOverview.amount = a\<rparr>))
   \<and> (2 < length row \<and> parse_money (Some (row ! 2)) = Inl e \<longrightarrow>
      SavingsOverview_from_row row = Inl e \<and> TransferOverview_from_row row = Inl e)
   \<and> (SavingsOverview_from_range rows = Inr outs \<longrightarrow>
      outs = List.map_filter (\<lambda>row. case parse_money (Some (row ! 2)) of
                  Inl e \<Rightarrow> None
                | Inr a \<Rightarrow> if a = 0 then None
                           else Some \<lparr>SavingsOverview.category = row ! 0,
                                      SavingsOverview.amount = a\<rparr>) rows)
   \<and> (row \<in> set rows \<and> SavingsOverview_from_row row = Inl e \<longrightarrow>
      (\<exists>e'. SavingsOverview_from_range rows = Inl e'))
   \<and> (TransferOverview_from_range rows = Inr outt \<longrightarrow>
      outt = List.map_filter (\<lambda>row. case parse_money (Some (row ! 2)) of
                  Inl e \<Rightarrow> None
                | Inr a \<Rightarrow> if a = 0 then None
                           else Some \<lparr>from_account = row ! 0, to_account = row ! 1,
                                      TransferOverview.amount = a\<rparr>) rows)
   \<and> (row \<in> set rows \<and> TransferOverview_from_row row = Inl e \<longrightarrow>
      (\<exists>e'. TransferOverview_from_range rows = Inl e'))"
proof -
  have p: "1 < length row \<Longrightarrow> parse_money (Some (row ! 1)) = r \<Longrightarrow>
      PaymentsOverview_from_row row =
        (case r of Inl e \<Rightarrow> Inl e
         | Inr a \<Rightarrow> if a = 0 then Inr None
                    else Inr (Some \<lparr>PaymentsOverview.category = row ! 0,
                                    PaymentsOverview.amount = a\<rparr>))" for r
    using PaymentsOverview_from_row_cases [of row] by simp
  have s: "2 < length row \<Longrightarrow> parse_money (Some (row ! 2)) = r \<Longrightarrow>
      SavingsOverview_from_row row =
        (case r of Inl e \<Rightarrow> Inl e
         | Inr a \<Rightarrow> if a = 0 then Inr None
                    else Inr (Some \<lparr>SavingsOverview.category = row ! 0,
                                    SavingsOverview.amount = a\<rparr>))" for r
    using SavingsOverview_from_row_cases [of row] by simp
  have t: "2 < length row \<Longrightarrow> parse_money (Some (row ! 2)) = r \<Longrightarrow>
      TransferOverview_from_row row =
        (case r of Inl e \<Rightarrow> Inl e
         | Inr a \<Rightarrow> if a = 0 then Inr None
                    else Inr (Some \<lparr>from_account = row ! 0, to_account = row ! 1,
                                    TransferOverview.amount = a\<rparr>))" for r
    using TransferOverview_from_row_cases [of row] by simp
  show ?thesis
    using p [of "Inr 0"] p [of "Inr a"] p [of "Inl e"]
      s [of "Inr 0"] s [of "Inr a"] s [of "Inl e"]
      t [of "Inr 0"] t [of "Inr a"] t [of "Inl e"]
      PaymentsOverview_from_range_Inr [of rows outp]
      SavingsOverview_from_range_Inr [of rows outs]
      TransferOverview_from_range_Inr [of rows outt]
      PaymentsOverview_from_range_Inl [of row rows e]
      SavingsOverview_from_range_Inl [of row rows e]
      TransferOverview_from_range_Inl [of row rows e]
    by simp
qed


text \<open>
  C4. For the three filtering mappers, a row whose governing cell (cell 1 for
  \<open>PaymentsOverview\<close>, cell 2 for \<open>SavingsOverview\<close> and \<open>TransferOverview\<close>) parses to
  exactly zero gives no entity; a row whose governing cell parses to a non-zero amount
  gives its entity; and a governing cell that fails to parse raises the parse error, from
  \<open>from_row\<close> and from \<open>from_range\<close>, instead of dropping the row. When every row has its
  governing cell and that cell parses, \<open>from_range\<close> returns, and what it returns is
  exactly the entities of the non-zero rows, in order. When a row fails, \<open>from_range\<close>
  raises the error of the first failing row.
\<close>

theorem filtering_mappers:
  "((1 < length row \<and> parse_money (Some (row ! 1)) = Inr 0 \<longrightarrow>
      PaymentsOverview_from_row row = Inr None)
   \<and> (1 < length row \<and> parse_money (Some (row ! 1)) = Inr a \<and> a \<noteq> 0 \<longrightarrow>
      PaymentsOverview_from_row row
        = Inr (Some \<lparr>PaymentsOverview.category = row ! 0, PaymentsOverview.amount = a\<rparr>))
   \<and> (1 < length row \<and> parse_money (Some (row ! 1)) = Inl e \<longrightarrow>
      PaymentsOverview_from_row row = Inl e)
   \<and> (PaymentsOverview_from_range rows = Inr outp \<longrightarrow>
      outp = List.map_filter (\<lambda>row. case parse_money (Some (row ! 1)) of
                  Inl e \<Rightarrow> None
                | Inr a \<Rightarrow> if a = 0 then None
                           else Some \<lparr>PaymentsOverview.category = row ! 0,
                                      PaymentsOverview.amount = a\<rparr>) rows)
   \<and> (row \<in> set rows \<and> PaymentsOverview_from_row row = Inl e \<longrightarrow>
      (\<exists>e'. PaymentsOverview_from_range rows = Inl e'))
   \<and> (2 < length row \<and> parse_money (Some (row ! 2)) = Inr 0 \<longrightarrow>
      SavingsOverview_from_row row = Inr None \<and> TransferOverview_from_row row = Inr None)
   \<and> (2 < length row \<and> parse_money (Some (row ! 2)) = Inr a \<and> a \<noteq> 0 \<longrightarrow>
      SavingsOverview_from_row row
        = Inr (Some \<lparr>SavingsOverview.category = row ! 0, SavingsOverview.amount = a\<rparr>)
      \<and> TransferOverview_from_row row
        = Inr (Some \<lparr>from_account = row ! 0, to_account = row ! 1,
                      TransferOverview.amount = a\<rparr>))
   \<and> (2 < length row \<and> parse_money (Some (row ! 2)) = Inl e \<longrightarrow>
      SavingsOverview_from_row row = Inl e \<and> TransferOverview_from_row row = Inl e)
   \<and> (SavingsOverview_from_range rows = Inr outs \<longrightarrow>
      outs = List.map_filter (\<lambda>row. case parse_money (Some (row ! 2)) of
                  Inl e \<Rightarrow> None
                | Inr a \<Rightarrow> if a = 0 then None
                           else Some \<lparr>SavingsOverview.category = row ! 0,
                                      SavingsOverview.amount = a\<rparr>) rows)
   \<and> (row \<in> set rows \<and> SavingsOverview_from_row row = Inl e \<longrightarrow>
      (\<exists>e'. SavingsOverview_from_range rows = Inl e'))
   \<and> (TransferOverview_from_range rows = Inr outt \<longrightarrow>
      outt = List.map_filter (\<lambda>row. case parse_money (Some (row ! 2)) of
                  Inl e \<Rightarrow> None
                | Inr a \<Rightarrow> if a = 0 then None
                           else Some \<lparr>from_account = row ! 0, to_account = row ! 1,
                                      TransferOverview.amount = a\<rparr>) rows)
   \<and> (row \<in> set rows \<and> TransferOverview_from_row row = Inl e \<longrightarrow>
      (\<exists>e'. TransferOverview_from_range rows = Inl e')))
   \<and> ((\<forall>r \<in> set rows. 1 < length r \<and> (\<exists>a. parse_money (Some (r ! 1)) = Inr a)) \<longrightarrow>
      PaymentsOverview_from_range rows
        = Inr (List.map_filter (\<lambda>row. case parse_money (Some (row ! 1)) of
                  Inl e \<Rightarrow> None
                | Inr a \<Rightarrow> if a = 0 then None
                           else Some \<lparr>PaymentsOverview.category = row ! 0,
                                      PaymentsOverview.amount = a\<rparr>) rows))
   \<and> ((\<forall>r \<in> set rows. 2 < length r \<and> (\<exists>a. parse_money (Some (r ! 2)) = Inr a)) \<longrightarrow>
      SavingsOverview_from_range rows
        = Inr (List.map_filter (\<lambda>row. case parse_money (Some (row ! 2)) of
                  Inl e \<Rightarrow> None
                | Inr a \<Rightarrow> if a = 0 then None
                           else Some \<lparr>SavingsOverview.category = row ! 0,
                                      SavingsOverview.amount = a\<rparr>) rows)
      \<and> TransferOverview_from_range rows
        = Inr (List.map_filter (\<lambda>row. case parse_money (Some (row ! 2)) of
                  Inl e \<Rightarrow> None
                | Inr a \<Rightarrow> if a = 0 then None
                           else Some \<lparr>from_account = row ! 0, to_account = row ! 1,
                                      TransferOverview.amount = a\<rparr>) rows))
   \<and> ((\<forall>r \<in> set pre. \<exists>x. PaymentsOverview_from_row r = Inr x)
        \<and> PaymentsOverview_from_row row = Inl e \<longrightarrow>
      PaymentsOverview_from_range (pre @ row # post) = Inl e)
   \<and> ((\<forall>r \<in> set pre. \<exists>x. SavingsOverview_from_row r = Inr x)
        \<and> SavingsOverview_from_row row = Inl e \<longrightarrow>
      SavingsOverview_from_range (pre @ row # post) = Inl e)
   \<and> ((\<forall>r \<in> set pre. \<exists>x. TransferOverview_from_row r = Inr x)
        \<and> TransferOverview_from_row row = Inl e \<longrightarrow>
      TransferOverview_from_range (pre @ row # post) = Inl e)"
proof -
  note rows = filtering_mappers_rows [of row a e rows outp outs outt]
  have ranges:
    "((\<forall>r \<in> set rows. 1 < length r \<and> (\<exists>a. parse_money (Some (r ! 1)) = Inr a)) \<longrightarrow>
      PaymentsOverview_from_range rows
        = Inr (List.map_filter (\<lambda>row. case parse_money (Some (row ! 1)) of
                  Inl e \<Rightarrow> None
                | Inr a \<Rightarrow> if a = 0 then None
                           else Some \<lparr>PaymentsOverview.category = row ! 0,
                                      PaymentsOverview.amount = a\<rparr>) rows))
   \<and> ((\<forall>r \<in> set rows. 2 < length r \<and> (\<exists>a. parse_money (Some (r ! 2)) = Inr a)) \<longrightarrow>
      SavingsOverview_from_range rows
        = Inr (List.map_filter (\<lambda>row. case parse_money (Some (row ! 2)) of
                  Inl e \<Rightarrow> None
                | Inr a \<Rightarrow> if a = 0 then None
                           else Some \<lparr>SavingsOverview.category = row ! 0,
                                      SavingsOverview.amount = a\<rparr>) rows)
      \<and> TransferOverview_from_range rows
        = Inr (List.map_filter (\<lambda>row. case parse_money (Some (row ! 2)) of
                  Inl e \<Rightarrow> None
                | Inr a \<Rightarrow> if a = 0 then None
                           else Some \<lparr>from_account = row ! 0, to_account = row ! 1,
                                      TransferOverview.amount = a\<rparr>) rows))
   \<and> ((\<forall>r \<in> set pre. \<exists>x. PaymentsOverview_from_row r = Inr x)
        \<and> PaymentsOverview_from_row row = Inl e \<longrightarrow>
      PaymentsOverview_from_range (pre @ row # post) = Inl e)
   \<and> ((\<forall>r \<in> set pre. \<exists>x. SavingsOverview_from_row r = Inr x)
        \<and> SavingsOverview_from_row row = Inl e \<longrightarrow>
      SavingsOverview_from_range (pre @ row # post) = Inl e)
   \<and> ((\<forall>r \<in> set pre. \<exists>x. TransferOverview_from_row r = Inr x)
        \<and> TransferOverview_from_row row = Inl e \<longrightarrow>
      TransferOverview_from_range (pre @ row # post) = Inl e)"
    using PaymentsOverview_from_range_ok [of rows] SavingsOverview_from_range_ok [of rows]
      TransferOverview_from_range_ok [of rows]
      PaymentsOverview_from_range_first_error [of pre row e post]
      SavingsOverview_from_range_first_error [of pre row e post]
      TransferOverview_from_range_first_error [of pre row e post]
    by blast
  from rows ranges show ?thesis by (rule conjI)
qed

theorem filtering_mappers_witness:
  "parse_money (Some ''$0.00'') = Inr 0
   \<and> parse_money (Some ''$0.01'') = Inr (1 / 100)
   \<and> parse_money (Some ''1.2.3'') = Inl ValueError
   \<and> PaymentsOverview_from_row [''Rent'', ''$0.00'', ''$0.01''] = Inr None
   \<and> SavingsOverview_from_row [''Rent'', ''$0.00'', ''$0.01'']
       = Inr (Some \<lparr>SavingsOverview.category = ''Rent'', SavingsOverview.amount = 1 / 100\<rparr>)
   \<and> TransferOverview_from_row [''Rent'', ''$0.00'', ''$0.01'']
       = Inr (Some \<lparr>from_account = ''Rent'', to_account = ''$0.00'',
                     TransferOverview.amount = 1 / 100\<rparr>)
   \<and> PaymentsOverview_from_row [''Food'', ''$0.01'', ''$0.00'']
       = Inr (Some \<lparr>PaymentsOverview.category = ''Food'', PaymentsOverview.amount = 1 / 100\<rparr>)
   \<and> SavingsOverview_from_row [''Food'', ''$0.01'', ''$0.00''] = Inr None
   \<and> TransferOverview_from_row [''Food'', ''$0.01'', ''$0.00''] = Inr None
   \<and> PaymentsOverview_from_row [''X'', ''1.2.3'', ''1.2.3''] = Inl ValueError
   \<and> SavingsOverview_from_row [''X'', ''1.2.3'', ''1.2.3''] = Inl ValueError
   \<and> TransferOverview_from_row [''X'', ''1.2.3'', ''1.2.3''] = Inl ValueError
   \<and> PaymentsOverview_from_range
         [[''Rent'', ''$0.00'', ''$0.01''], [''Food'', ''$0.01'', ''$0.00'']]
       = Inr [\<lparr>PaymentsOverview.category = ''Food'', PaymentsOverview.amount = 1 / 100\<rparr>]
   \<and> SavingsOverview_from_range
         [[''Rent'', ''$0.00'', ''$0.01''], [''Food'', ''$0.01'', ''$0.00'']]
       = Inr [\<lparr>SavingsOverview.category = ''Rent'', SavingsOverview.amount = 1 / 100\<rparr>]
   \<and> TransferOverview_from_range
         [[''Rent'', ''$0.00'', ''$0.01''], [''Food'', ''$0.01'', ''$0.00'']]
       = Inr [\<lparr>from_account = ''Rent'', to_account = ''$0.00'',
               TransferOverview.amount = 1 / 100\<rparr>]
   \<and> PaymentsOverview_from_range
         [[''Rent'', ''$0.00'', ''$0.01''], [''X'', ''1.2.3'', ''1.2.3''],
          [''Food'', ''$0.01'', ''$0.00'']] = Inl ValueError
   \<and> SavingsOverview_from_range
         [[''Rent'', ''$0.00'', ''$0.01''], [''X'', ''1.2.3'', ''1.2.3''],
          [''Food'', ''$0.01'', ''$0.00'']] = Inl ValueError
   \<and> TransferOverview_from_range
         [[''Rent'', ''$0.00'', ''$0.01''], [''X'', ''1.2.3'', ''1.2.3''],
          [''Food'', ''$0.01'', ''$0.00'']] = Inl ValueError"
proof -
  let ?r = "[''Rent'', ''$0.00'', ''$0.01'']"
  let ?f = "[''Food'', ''$0.01'', ''$0.00'']"
  let ?x = "[''X'', ''1.2.3'', ''1.2.3'']"
  have z: "parse_money (Some ''$0.00'') = Inr 0"
    and n: "parse_money (Some ''$0.01'') = Inr (1 / 100)"
    and e: "parse_money (Some ''1.2.3'') = Inl ValueError"
    by (simp_all add: parse_money_eval)
  note a = filtering_mappers [where row = ?r and a = "1 / 100" and rows = "[?r, ?f]",
      THEN conjunct1]
  note b = filtering_mappers [where row = ?f and a = "1 / 100" and rows = "[?r, ?f]",
      THEN conjunct1]
  note c = filtering_mappers [where row = ?x and e = ValueError and rows = "[?r, ?x]",
      THEN conjunct1]
  note d = filtering_mappers [where rows = "[?r, ?f]" and row = ?x and e = ValueError
      and pre = "[?r]" and post = "[?f]", THEN conjunct2]
  have 1: "PaymentsOverview_from_row ?r = Inr None"
    "SavingsOverview_from_row ?r
       = Inr (Some \<lparr>SavingsOverview.category = ''Rent'', SavingsOverview.amount = 1 / 100\<rparr>)"
    "TransferOverview_from_row ?r
       = Inr (Some \<lparr>from_account = ''Rent'', to_account = ''$0.00'',
                     TransferOverview.amount = 1 / 100\<rparr>)"
    using a z n by simp_all
  have 2: "PaymentsOverview_from_row ?f
       = Inr (Some \<lparr>PaymentsOverview.category = ''Food'', PaymentsOverview.amount = 1 / 100\<rparr>)"
    "SavingsOverview_from_row ?f = Inr None"
    "TransferOverview_from_row ?f = Inr None"
    using b z n by simp_all
  have 3: "PaymentsOverview_from_row ?x = Inl ValueError"
    "SavingsOverview_from_row ?x = Inl ValueError"
    "TransferOverview_from_row ?x = Inl ValueError"
    using c e by simp_all
  have h1: "\<forall>r \<in> set [?r, ?f]. 1 < length r \<and> (\<exists>a. parse_money (Some (r ! 1)) = Inr a)"
    and h2: "\<forall>r \<in> set [?r, ?f]. 2 < length r \<and> (\<exists>a. parse_money (Some (r ! 2)) = Inr a)"
  proof -
    from z n have "\<exists>a. parse_money (Some ''$0.00'') = Inr a"
      "\<exists>a. parse_money (Some ''$0.01'') = Inr a"
      by blast+
    then show "\<forall>r \<in> set [?r, ?f]. 1 < length r \<and> (\<exists>a. parse_money (Some (r ! 1)) = Inr a)"
      and "\<forall>r \<in> set [?r, ?f]. 2 < length r \<and> (\<exists>a. parse_money (Some (r ! 2)) = Inr a)"
      by simp_all
  qed
  from d h1 have "PaymentsOverview_from_range [?r, ?f]
      = Inr (List.map_filter (\<lambda>row. case parse_money (Some (row ! 1)) of
                  Inl e \<Rightarrow> None
                | Inr a \<Rightarrow> if a = 0 then None
                           else Some \<lparr>PaymentsOverview.category = row ! 0,
                                      PaymentsOverview.amount = a\<rparr>) [?r, ?f])"
    by blast
  then have 4: "PaymentsOverview_from_range [?r, ?f]
       = Inr [\<lparr>PaymentsOverview.category = ''Food'', PaymentsOverview.amount = 1 / 100\<rparr>]"
    by (simp add: List.map_filter_simps z n)
  from d h2 have "SavingsOverview_from_range [?r, ?f]
      = Inr (List.map_filter (\<lambda>row. case parse_money (Some (row ! 2)) of
                  Inl e \<Rightarrow> None
                | Inr a \<Rightarrow> if a = 0 then None
                           else Some \<lparr>SavingsOverview.category = row ! 0,
                                      SavingsOverview.amount = a\<rparr>) [?r, ?f])"
    by blast
  then have 5: "SavingsOverview_from_range [?r, ?f]
       = Inr [\<lparr>SavingsOverview.category = ''Rent'', SavingsOverview.amount = 1 / 100\<rparr>]"
    by (simp add: List.map_filter_simps z n)
  from d h2 have "TransferOverview_from_range [?r, ?f]
      = Inr (List.map_filter (\<lambda>row. case parse_money (Some (row ! 2)) of
                  Inl e \<Rightarrow> None
                | Inr a \<Rightarrow> if a = 0 then None
                           else Some \<lparr>from_account = row ! 0, to_account = row ! 1,
                                      TransferOverview.amount = a\<rparr>) [?r, ?f])"
    by blast
  then have 6: "TransferOverview_from_range [?r, ?f]
       = Inr [\<lparr>from_account = ''Rent'', to_account = ''$0.00'',
               TransferOverview.amount = 1 / 100\<rparr>]"
    by (simp add: List.map_filter_simps z n)
  have p: "\<forall>r \<in> set [?r]. \<exists>x. PaymentsOverview_from_row r = Inr x"
    "\<forall>r \<in> set [?r]. \<exists>x. SavingsOverview_from_row r = Inr x"
    "\<forall>r \<in> set [?r]. \<exists>x. TransferOverview_from_row r = Inr x"
    using 1 by simp_all
  from d p 3 have 7: "PaymentsOverview_from_range ([?r] @ ?x # [?f]) = Inl ValueError"
    "SavingsOverview_from_range ([?r] @ ?x # [?f]) = Inl ValueError"
    "TransferOverview_from_range ([?r] @ ?x # [?f]) = Inl ValueError"
    by blast+
  from z n e 1 2 3 4 5 6 7 show ?thesis by simp
qed

section \<open>The categorized-spend mapper\<close>

lemma loop_end:
  "length rows \<le> i \<Longrightarrow> BssSpent_from_rows_loop rows i result = Inr result"
  by (subst BssSpent_from_rows_loop.simps) simp

lemma loop_blank:
  "i < length rows \<Longrightarrow> blank_row (rows ! i) \<Longrightarrow>
   BssSpent_from_rows_loop rows i result = BssSpent_from_rows_loop rows (Suc i) result"
  by (subst BssSpent_from_rows_loop.simps) simp

lemma loop_last:
  assumes "Suc i = length rows" "\<not> blank_row (rows ! i)"
  shows "BssSpent_from_rows_loop rows i result =
     Inr (result @ [\<lparr>BssSpent.category = category_of_label (rows ! i ! 0), BssSpent.amount = 0\<rparr>])"
proof -
  from assms have i: "i < length rows" "\<not> Suc i < length rows" "length rows \<le> Suc (Suc i)"
    by simp_all
  show ?thesis
    by (subst BssSpent_from_rows_loop.simps)
       (simp add: i assms(2) loop_end del: BssSpent_from_rows_loop.simps)
qed

lemma loop_pair:
  assumes "Suc i < length rows" "\<not> blank_row (rows ! i)"
  shows "BssSpent_from_rows_loop rows i result =
     bind (bind (getitem (rows ! Suc i) 0) (\<lambda>cell. parse_money (Some cell))) (\<lambda>a.
       BssSpent_from_rows_loop rows (i + 2)
         (result @ [\<lparr>BssSpent.category = category_of_label (rows ! i ! 0), BssSpent.amount = a\<rparr>]))"
proof -
  from assms have i: "i < length rows" by simp
  show ?thesis
    by (subst BssSpent_from_rows_loop.simps)
       (simp add: i assms bind_def del: BssSpent_from_rows_loop.simps split: sum.split)
qed

lemma loop_pair_ok:
  assumes "Suc i < length rows" "\<not> blank_row (rows ! i)" "rows ! Suc i \<noteq> []"
    "parse_money (Some (rows ! Suc i ! 0)) = Inr a"
  shows "BssSpent_from_rows_loop rows i result =
       BssSpent_from_rows_loop rows (i + 2)
         (result @ [\<lparr>BssSpent.category = category_of_label (rows ! i ! 0), BssSpent.amount = a\<rparr>])"
  using assms by (simp add: loop_pair getitem_def del: BssSpent_from_rows_loop.simps)

lemma contains_iff: "contains needle hay = (\<exists>p s. hay = p @ needle @ s)"
proof (induction hay)
  case Nil
  then show ?case by auto
next
  case (Cons c cs)
  show ?case
  proof
    assume "contains needle (c # cs)"
    then consider "take (length needle) (c # cs) = needle" | "contains needle cs" by auto
    then show "\<exists>p s. c # cs = p @ needle @ s"
    proof cases
      case 1
      then have "c # cs = [] @ needle @ drop (length needle) (c # cs)"
        by (metis append_Nil append_take_drop_id)
      then show ?thesis by blast
    next
      case 2
      with Cons.IH obtain p s where "cs = p @ needle @ s" by blast
      then have "c # cs = (c # p) @ needle @ s" by simp
      then show ?thesis by blast
    qed
  next
    assume "\<exists>p s. c # cs = p @ needle @ s"
    then obtain p s where ps: "c # cs = p @ needle @ s" by blast
    show "contains needle (c # cs)"
    proof (cases p)
      case Nil
      with ps have "take (length needle) (c # cs) = needle" by simp
      then show ?thesis by simp
    next
      case (Cons a p')
      with ps have "cs = p' @ needle @ s" by simp
      with Cons.IH have "contains needle cs" by blast
      then show ?thesis by simp
    qed
  qed
qed


lemma category_of_label_substring:
  "category_of_label cell =
     (if (\<exists>p s. lower (strip cell) = p @ ''bill'' @ s) then Bills
      else if (\<exists>p s. lower (strip cell) = p @ ''sav'' @ s) then Savings
      else Spending)"
  unfolding category_of_label_def Let_def contains_iff ..

lemmas category_eval = category_of_label_def blank_row_def text_eval

lemma example_rows_result:
  "BssSpent_from_rows
     [[''Bills'', ''''], [''$500''], [''Savings'', ''''], [''$200''], [''Groceries'', ''''], [''$150'']]
   = Inr [\<lparr>BssSpent.category = Bills, BssSpent.amount = 500\<rparr>,
          \<lparr>BssSpent.category = Savings, BssSpent.amount = 200\<rparr>,
          \<lparr>BssSpent.category = Spending, BssSpent.amount = 150\<rparr>]"
  by (simp add: BssSpent_from_rows_def category_eval getitem_def parse_money_eval)

text \<open>
  C3. Rows are consumed in pairs, a label row and then an amount row: the
  pair's category is Bills when the stripped, lower-cased label contains \<open>bill\<close>,
  otherwise Savings when it contains \<open>sav\<close>, otherwise Spending, and its amount is the
  parsed first cell of the next row. A blank row (no cell, or a first cell of white space
  only) met where a label is expected is skipped by advancing exactly one row. The row
  after a label is always read as that label's amount row: an empty first cell there is
  the amount 0. The six example rows give bills 500, savings 200, spending 150 and
  total 850.
\<close>

theorem categorized_spend_pairs:
  "(i < length rows \<and> blank_row (rows ! i) \<longrightarrow>
      BssSpent_from_rows_loop rows i result = BssSpent_from_rows_loop rows (Suc i) result)
   \<and> (Suc i < length rows \<and> \<not> blank_row (rows ! i) \<and> rows ! Suc i \<noteq> []
        \<and> parse_money (Some (rows ! Suc i ! 0)) = Inr a \<longrightarrow>
      BssSpent_from_rows_loop rows i result =
        BssSpent_from_rows_loop rows (i + 2)
          (result @ [\<lparr>BssSpent.category = category_of_label (rows ! i ! 0),
                      BssSpent.amount = a\<rparr>]))
   \<and> (Suc i < length rows \<and> \<not> blank_row (rows ! i) \<and> rows ! Suc i \<noteq> []
        \<and> rows ! Suc i ! 0 = [] \<longrightarrow>
      BssSpent_from_rows_loop rows i result =
        BssSpent_from_rows_loop rows (i + 2)
          (result @ [\<lparr>BssSpent.category = category_of_label (rows ! i ! 0),
                      BssSpent.amount = 0\<rparr>]))
   \<and> category_of_label cell =
       (if (\<exists>p s. lower (strip cell) = p @ ''bill'' @ s) then Bills
        else if (\<exists>p s. lower (strip cell) = p @ ''sav'' @ s) then Savings
        else Spending)
   \<and> category_of_label '' BILLS '' = Bills
   \<and> category_of_label ''My SAVings'' = Savings
   \<and> category_of_label ''Groceries'' = Spending
   \<and> (\<exists>b. Bss_from_rows
         [[''Bills'', ''''], [''$500''], [''Savings'', ''''], [''$200''],
          [''Groceries'', ''''], [''$150'']] = Inr b
        \<and> bills b = 500 \<and> savings b = 200 \<and> spending b = 150 \<and> total b = 850)"
proof -
  have blank: "Suc i < length rows \<and> \<not> blank_row (rows ! i) \<and> rows ! Suc i \<noteq> []
        \<and> rows ! Suc i ! 0 = [] \<longrightarrow>
      BssSpent_from_rows_loop rows i result =
        BssSpent_from_rows_loop rows (i + 2)
          (result @ [\<lparr>BssSpent.category = category_of_label (rows ! i ! 0),
                      BssSpent.amount = 0\<rparr>])"
    using loop_pair_ok [of i rows 0 result] by (simp add: parse_money_def)
  have ex: "\<exists>b. Bss_from_rows
         [[''Bills'', ''''], [''$500''], [''Savings'', ''''], [''$200''],
          [''Groceries'', ''''], [''$150'']] = Inr b
        \<and> bills b = 500 \<and> savings b = 200 \<and> spending b = 150 \<and> total b = 850"
    by (simp add: Bss_from_rows_def example_rows_result bills_def savings_def spending_def
        total_def)
  have cats: "category_of_label '' BILLS '' = Bills" "category_of_label ''My SAVings'' = Savings"
    "category_of_label ''Groceries'' = Spending"
    by (simp_all add: category_eval)
  from blank ex cats loop_blank [of i rows result] loop_pair_ok [of i rows a result]
    category_of_label_substring [of cell]
  show ?thesis by blast
qed

theorem categorized_spend_pairs_witness:
  "blank_row ([[''''], [''Bills''], [''$500'']] ! 0)
   \<and> \<not> blank_row ([[''''], [''Bills''], [''$500'']] ! 1)
   \<and> parse_money (Some ([[''''], [''Bills''], [''$500'']] ! 2 ! 0)) = Inr 500
   \<and> BssSpent_from_rows [[''''], [''Bills''], [''$500'']]
       = Inr [\<lparr>BssSpent.category = Bills, BssSpent.amount = 500\<rparr>]"
proof -
  let ?rows = "[[''''], [''Bills''], [''$500'']]"
  have b: "blank_row (?rows ! 0)" "\<not> blank_row (?rows ! 1)"
    by (simp_all add: category_eval)
  have p: "parse_money (Some (?rows ! 2 ! 0)) = Inr 500"
    by (simp add: parse_money_eval)
  have c: "category_of_label (?rows ! 1 ! 0) = Bills"
    by (simp add: category_eval)
  note t0 = categorized_spend_pairs [of 0 ?rows "[]", THEN conjunct1]
  note t1 = categorized_spend_pairs [of 1 ?rows "[]" 500, THEN conjunct2, THEN conjunct1]
  from t0 b
  have "BssSpent_from_rows ?rows = BssSpent_from_rows_loop ?rows 1 []"
    by (simp add: BssSpent_from_rows_def del: BssSpent_from_rows_loop.simps)
  also from t1 b p c
  have "\<dots> = BssSpent_from_rows_loop ?rows 3 [\<lparr>BssSpent.category = Bills, BssSpent.amount = 500\<rparr>]"
    by (simp add: numeral_3_eq_3 del: BssSpent_from_rows_loop.simps)
  also have "\<dots> = Inr [\<lparr>BssSpent.category = Bills, BssSpent.amount = 500\<rparr>]"
    by (simp add: loop_end del: BssSpent_from_rows_loop.simps)
  finally show ?thesis using b p by blast
qed

text \<open>
  A blank row that follows a label is not skipped: it is read as the label's amount row,
  and the row after it becomes a label of its own.
\<close>

theorem blank_amount_row_counterexample:
  "blank_row ([[''Bills''], [''''], [''$500'']] ! 1)
   \<and> BssSpent_from_rows [[''Bills''], [''''], [''$500'']]
       = Inr [\<lparr>BssSpent.category = Bills, BssSpent.amount = 0\<rparr>,
              \<lparr>BssSpent.category = Spending, BssSpent.amount = 0\<rparr>]"
  by (simp add: BssSpent_from_rows_def category_eval getitem_def parse_money_eval)

text \<open>
  C10. When the loop stands on the last row and that row is not blank, no amount row
  follows: the row still gives an entity, with the amount 0, and the mapper returns
  without an error. In particular a single label row gives one entity of amount 0.
\<close>

theorem trailing_label_amount_zero:
  "(Suc i = length rows \<and> \<not> blank_row (rows ! i) \<longrightarrow>
      BssSpent_from_rows_loop rows i result =
        Inr (result @ [\<lparr>BssSpent.category = category_of_label (rows ! i ! 0),
                         BssSpent.amount = 0\<rparr>]))
   \<and> (\<not> blank_row row \<longrightarrow>
      BssSpent_from_rows [row] =
        Inr [\<lparr>BssSpent.category = category_of_label (row ! 0), BssSpent.amount = 0\<rparr>])"
  using loop_last [of i rows result] loop_last [of 0 "[row]" "[]"]
  by (simp add: BssSpent_from_rows_def del: BssSpent_from_rows_loop.simps)

theorem trailing_label_amount_zero_witness:
  "Suc 2 = length [[''Bills''], [''$5''], [''Rent'']]
   \<and> \<not> blank_row ([[''Bills''], [''$5''], [''Rent'']] ! 2)
   \<and> \<not> blank_row [''Rent'']
   \<and> BssSpent_from_rows [[''Rent'']]
       = Inr [\<lparr>BssSpent.category = Spending, BssSpent.amount = 0\<rparr>]
   \<and> BssSpent_from_rows_loop [[''Bills''], [''$5''], [''Rent'']] 2
         [\<lparr>BssSpent.category = Bills, BssSpent.amount = 5\<rparr>]
       = Inr [\<lparr>BssSpent.category = Bills, BssSpent.amount = 5\<rparr>,
              \<lparr>BssSpent.category = Spending, BssSpent.amount = 0\<rparr>]
   \<and> BssSpent_from_rows [[''Bills''], [''$5''], [''Rent'']]
       = Inr [\<lparr>BssSpent.category = Bills, BssSpent.amount = 5\<rparr>,
              \<lparr>BssSpent.category = Spending, BssSpent.amount = 0\<rparr>]"
proof -
  let ?rows = "[[''Bills''], [''$5''], [''Rent'']]"
  have b: "\<not> blank_row (?rows ! 2)" "\<not> blank_row [''Rent'']"
    by (simp_all add: category_eval)
  have c: "category_of_label ''Rent'' = Spending"
    by (simp add: category_eval)
  have w: "BssSpent_from_rows ?rows
       = Inr [\<lparr>BssSpent.category = Bills, BssSpent.amount = 5\<rparr>,
              \<lparr>BssSpent.category = Spending, BssSpent.amount = 0\<rparr>]"
    by (simp add: BssSpent_from_rows_def category_eval getitem_def parse_money_eval)
  from trailing_label_amount_zero
    [of 2 ?rows "[\<lparr>BssSpent.category = Bills, BssSpent.amount = 5\<rparr>]" "[''Rent'']"] b c w
  show ?thesis by (simp del: BssSpent_from_rows_loop.simps)
qed

section \<open>The order of the budget line items\<close>

lemma from_manual_budget_range_undated:
  assumes "from_manual_budget_range p rows = Inr m"
  shows "\<forall>b \<in> set m. next_approx_payment b = None"
  using assms
proof (induction rows arbitrary: m)
  case Nil
  then show ?case by simp
next
  case (Cons row rows)
  from Cons.prems obtain b bs where
    b: "from_manual_budget_row p row = Inr b" and
    bs: "from_manual_budget_range p rows = Inr bs" and
    m: "m = b # bs"
    by (auto simp: bind_Inr_iff)
  from from_manual_budget_row_Inr [OF b] Cons.IH [OF bs] m show ?case by simp
qed

lemma from_recurring_budget_range_dated:
  assumes "from_recurring_budget_range fl sp d rows = Inr r"
  shows "\<forall>b \<in> set r. next_approx_payment b \<noteq> None"
  using assms
proof (induction rows arbitrary: r)
  case Nil
  then show ?case by simp
next
  case (Cons row rows)
  from Cons.prems obtain b bs where
    b: "from_recurring_budget_row fl sp d row = Inr b" and
    bs: "from_recurring_budget_range fl sp d rows = Inr bs" and
    r: "r = b # bs"
    by (auto simp: bind_Inr_iff)
  from from_recurring_budget_row_Inr [OF b] Cons.IH [OF bs] r show ?case by auto
qed

lemma sort_key_least_prefix:
  fixes f :: "'a \<Rightarrow> nat"
  assumes "\<forall>x \<in> set m. f x = 0"
  shows "sort_key f (m @ r) = m @ sort_key f r"
  using assms
proof (induction m)
  case Nil
  then show ?case by simp
next
  case (Cons x m)
  then have "sort_key f (m @ r) = m @ sort_key f r" and x: "f x = 0" by simp_all
  then have "sort_key f ((x # m) @ r) = insort_key f x (m @ sort_key f r)" by simp
  also have "\<dots> = x # m @ sort_key f r"
    by (rule insort_is_Cons) (simp add: x)
  finally show ?case by simp
qed

lemma sorted_all_zero:
  fixes f :: "'a \<Rightarrow> nat"
  shows "\<forall>x \<in> set ys. f x = 0 \<Longrightarrow> sorted (map f ys)"
  by (induction ys) auto

lemma sort_key_least_first:
  fixes f :: "'a \<Rightarrow> nat"
  shows "sort_key f xs = filter (\<lambda>x. f x = 0) xs @ sort_key f (filter (\<lambda>x. f x \<noteq> 0) xs)"
proof (rule properties_for_sort_key)
  let ?ys = "filter (\<lambda>x. f x = 0) xs @ sort_key f (filter (\<lambda>x. f x \<noteq> 0) xs)"
  show "mset ?ys = mset xs" by simp
  show "sorted (map f ?ys)"
    by (auto simp: sorted_append sorted_all_zero)
  fix k assume "k \<in> set ?ys"
  show "filter (\<lambda>x. f k = f x) ?ys = filter (\<lambda>x. f k = f x) xs"
  proof (cases "f k = 0")
    case True
    have "filter (\<lambda>x. f x = 0) (sort_key f (filter (\<lambda>x. f x \<noteq> 0) xs)) = []"
      by (simp add: filter_empty_conv)
    moreover have "(\<lambda>x. f k = f x) = (\<lambda>x. f x = 0)" using True by auto
    ultimately show ?thesis by simp
  next
    case False
    have "filter (\<lambda>x. f k = f x) (sort_key f (filter (\<lambda>x. f x \<noteq> 0) xs))
          = filter (\<lambda>x. f x = f k) (sort_key f (filter (\<lambda>x. f x \<noteq> 0) xs))"
      by (rule filter_cong) auto
    also have "\<dots> = filter (\<lambda>x. f x = f k) (filter (\<lambda>x. f x \<noteq> 0) xs)"
      by (rule sort_key_stable)
    also have "\<dots> = filter (\<lambda>x. f k = f x) xs"
      using False by (auto intro: filter_cong)
    finally have "filter (\<lambda>x. f k = f x) (sort_key f (filter (\<lambda>x. f x \<noteq> 0) xs))
          = filter (\<lambda>x. f k = f x) xs" .
    moreover have "filter (\<lambda>x. f k = f x) (filter (\<lambda>x. f x = 0) xs) = []"
      using False by (auto simp: filter_empty_conv)
    ultimately show ?thesis by simp
  qed
qed


lemma undated_before_dated:
  assumes "ys = us @ ds" "\<forall>b \<in> set us. next_approx_payment b = None"
    "\<forall>b \<in> set ds. next_approx_payment b \<noteq> None"
    "i < length ys" "j < length ys"
    "next_approx_payment (ys ! i) = None" "next_approx_payment (ys ! j) \<noteq> None"
  shows "i < j"
proof -
  have "i < length us"
  proof (rule ccontr)
    assume "\<not> i < length us"
    with assms(1,4) have "ys ! i \<in> set ds"
      by (simp add: nth_append)
    with assms(3,6) show False by auto
  qed
  moreover have "length us \<le> j"
  proof (rule ccontr)
    assume "\<not> length us \<le> j"
    with assms(1) have "ys ! j \<in> set us"
      by (simp add: nth_append)
    with assms(2,7) show False by auto
  qed
  ultimately show ?thesis by simp
qed

lemma budget_sort_key_undated: "next_approx_payment b = None \<Longrightarrow> budget_sort_key b = 0"
  by (simp add: budget_sort_key_def date_min_def)

lemma main_budgets_Inr:
  assumes "main_budgets fl sp ps d mrows rrows = Inr bs"
  shows "\<exists>m r. from_manual_budget_range ps mrows = Inr m
           \<and> from_recurring_budget_range fl sp d rrows = Inr r
           \<and> (\<forall>b \<in> set m. next_approx_payment b = None)
           \<and> (\<forall>b \<in> set r. next_approx_payment b \<noteq> None)
           \<and> bs = m @ sort_key budget_sort_key r"
proof -
  from assms obtain m r where
    m: "from_manual_budget_range ps mrows = Inr m" and
    r: "from_recurring_budget_range fl sp d rrows = Inr r" and
    bs: "bs = sort_budgets (m @ r)"
    unfolding main_budgets_def by (auto simp: bind_Inr_iff)
  note um = from_manual_budget_range_undated [OF m]
  then have "\<forall>b \<in> set m. budget_sort_key b = 0"
    by (simp add: budget_sort_key_undated)
  then have "sort_budgets (m @ r) = m @ sort_key budget_sort_key r"
    unfolding sort_budgets_def by (rule sort_key_least_prefix)
  with m r bs um from_recurring_budget_range_dated [OF r] show ?thesis by blast
qed

lemma sort_budgets_undated_first:
  assumes "\<forall>b \<in> set bl. \<forall>dt. next_approx_payment b = Some dt \<longrightarrow> date_min < dt"
  shows "\<exists>us ds. sort_budgets bl = us @ ds
           \<and> (\<forall>b \<in> set us. next_approx_payment b = None)
           \<and> (\<forall>b \<in> set ds. next_approx_payment b \<noteq> None)"
proof -
  let ?us = "filter (\<lambda>b. budget_sort_key b = 0) bl"
  let ?ds = "sort_key budget_sort_key (filter (\<lambda>b. budget_sort_key b \<noteq> 0) bl)"
  have k: "(budget_sort_key b = 0) = (next_approx_payment b = None)" if "b \<in> set bl" for b
    using assms that by (cases "next_approx_payment b") (auto simp: budget_sort_key_def date_min_def)
  have "sort_budgets bl = ?us @ ?ds"
    unfolding sort_budgets_def by (rule sort_key_least_first)
  moreover have "\<forall>b \<in> set ?us. next_approx_payment b = None" using k by auto
  moreover have "\<forall>b \<in> set ?ds. next_approx_payment b \<noteq> None"
  proof
    fix b assume "b \<in> set ?ds"
    then have "b \<in> set bl" "budget_sort_key b \<noteq> 0" by auto
    with k [of b] show "next_approx_payment b \<noteq> None" by simp
  qed
  ultimately show ?thesis by blast
qed

text \<open>
  C5. The budget list that \<open>main\<close> builds (manual items, then recurring items, then the
  sort) is in ascending order of the sort key, which is the next-due date and \<open>date.min\<close>
  for an item without one; it holds exactly the manual and the recurring items; and
  every item without a due date stands before every item with one. The sort by itself
  orders any list by that key and keeps its items, and it puts the undated items first
  wherever they stood, given that no dated item is dated \<open>date.min\<close> itself (in \<open>main\<close>
  such an item follows the undated ones already, and the stable sort keeps it there).
\<close>

theorem budgets_sorted_undated_first:
  "(main_budgets fl sp ps d mrows rrows = Inr bs \<longrightarrow>
      sorted (map budget_sort_key bs)
      \<and> (\<exists>m r. from_manual_budget_range ps mrows = Inr m
             \<and> from_recurring_budget_range fl sp d rrows = Inr r
             \<and> mset bs = mset m + mset r)
      \<and> (\<forall>i j. i < length bs \<and> j < length bs \<and> next_approx_payment (bs ! i) = None
             \<and> next_approx_payment (bs ! j) \<noteq> None \<longrightarrow> i < j))
   \<and> sorted (map budget_sort_key (sort_budgets bl))
   \<and> mset (sort_budgets bl) = mset bl
   \<and> budget_sort_key b = (case next_approx_payment b of None \<Rightarrow> date_min | Some dt \<Rightarrow> dt)
   \<and> ((\<forall>b \<in> set bl. \<forall>dt. next_approx_payment b = Some dt \<longrightarrow> date_min < dt) \<longrightarrow>
        (\<forall>i j. i < length bl \<and> j < length bl
             \<and> next_approx_payment (sort_budgets bl ! i) = None
             \<and> next_approx_payment (sort_budgets bl ! j) \<noteq> None \<longrightarrow> i < j))"
proof -
  have main: "sorted (map budget_sort_key bs)
      \<and> (\<exists>m r. from_manual_budget_range ps mrows = Inr m
             \<and> from_recurring_budget_range fl sp d rrows = Inr r
             \<and> mset bs = mset m + mset r)
      \<and> (\<forall>i j. i < length bs \<and> j < length bs \<and> next_approx_payment (bs ! i) = None
             \<and> next_approx_payment (bs ! j) \<noteq> None \<longrightarrow> i < j)"
    if a: "main_budgets fl sp ps d mrows rrows = Inr bs"
  proof -
    from main_budgets_Inr [OF a] obtain m r where
      m: "from_manual_budget_range ps mrows = Inr m" and
      r: "from_recurring_budget_range fl sp d rrows = Inr r" and
      um: "\<forall>b \<in> set m. next_approx_payment b = None" and
      dr: "\<forall>b \<in> set r. next_approx_payment b \<noteq> None" and
      bs: "bs = m @ sort_key budget_sort_key r"
      by blast
    from a m r have "bs = sort_budgets (m @ r)"
      by (simp add: main_budgets_def)
    then have s: "sorted (map budget_sort_key bs)" and ms: "mset bs = mset m + mset r"
      by (simp_all add: sort_budgets_def)
    from dr have ds: "\<forall>b \<in> set (sort_key budget_sort_key r). next_approx_payment b \<noteq> None"
      by simp
    have "\<forall>i j. i < length bs \<and> j < length bs \<and> next_approx_payment (bs ! i) = None
             \<and> next_approx_payment (bs ! j) \<noteq> None \<longrightarrow> i < j"
      using undated_before_dated [OF bs um ds] by blast
    with s ms m r show ?thesis by blast
  qed
  have gen: "\<forall>i j. i < length bl \<and> j < length bl
             \<and> next_approx_payment (sort_budgets bl ! i) = None
             \<and> next_approx_payment (sort_budgets bl ! j) \<noteq> None \<longrightarrow> i < j"
    if a: "\<forall>b \<in> set bl. \<forall>dt. next_approx_payment b = Some dt \<longrightarrow> date_min < dt"
  proof -
    from sort_budgets_undated_first [OF a] obtain us ds where
      s: "sort_budgets bl = us @ ds" and
      u: "\<forall>b \<in> set us. next_approx_payment b = None" and
      d: "\<forall>b \<in> set ds. next_approx_payment b \<noteq> None"
      by blast
    have l: "length (sort_budgets bl) = length bl"
      by (simp add: sort_budgets_def)
    show ?thesis using undated_before_dated [OF s u d] l by auto
  qed
  have "sorted (map budget_sort_key (sort_budgets bl))"
    "mset (sort_budgets bl) = mset bl"
    by (simp_all add: sort_budgets_def)
  moreover have "budget_sort_key b
      = (case next_approx_payment b of None \<Rightarrow> date_min | Some dt \<Rightarrow> dt)"
    by (simp add: budget_sort_key_def)
  ultimately show ?thesis using main gen by blast
qed


theorem budgets_sorted_undated_first_witness:
  "main_budgets (\<lambda>s. Inr 30) (\<lambda>s. Inr date_min) 14 [(''Home'', [''Rent''])]
       [[''Food'', ''$10'', '''', ''TRUE'']]
       [[''Rent'', ''flat'', ''$900'', ''30'', ''FALSE'', ''Checking'', '''', ''01/01/0001'']]
     = Inr [\<lparr>Budget.category = ''Food'', subcategory = None, Budget.amount = 10,
              timeframe = 14, description = ''Food'', expense_type = Expendable,
              paid_from = None, next_approx_payment = None\<rparr>,
            \<lparr>Budget.category = ''Home'', subcategory = Some ''Rent'', Budget.amount = 900,
              timeframe = 30, description = ''flat'', expense_type = RequiredPayment,
              paid_from = Some ''Checking'', next_approx_payment = Some date_min\<rparr>]
   \<and> sorted (map budget_sort_key
        [\<lparr>Budget.category = ''Food'', subcategory = None, Budget.amount = 10,
              timeframe = 14, description = ''Food'', expense_type = Expendable,
              paid_from = None, next_approx_payment = None\<rparr>,
            \<lparr>Budget.category = ''Home'', subcategory = Some ''Rent'', Budget.amount = 900,
              timeframe = 30, description = ''flat'', expense_type = RequiredPayment,
              paid_from = Some ''Checking'', next_approx_payment = Some date_min\<rparr>])
   \<and> sort_budgets
        [\<lparr>Budget.category = ''Home'', subcategory = Some ''Rent'', Budget.amount = 900,
              timeframe = 30, description = ''flat'', expense_type = RequiredPayment,
              paid_from = Some ''Checking'', next_approx_payment = Some 5\<rparr>,
         \<lparr>Budget.category = ''Food'', subcategory = None, Budget.amount = 10,
              timeframe = 14, description = ''Food'', expense_type = Expendable,
              paid_from = None, next_approx_payment = None\<rparr>]
     = [\<lparr>Budget.category = ''Food'', subcategory = None, Budget.amount = 10,
              timeframe = 14, description = ''Food'', expense_type = Expendable,
              paid_from = None, next_approx_payment = None\<rparr>,
        \<lparr>Budget.category = ''Home'', subcategory = Some ''Rent'', Budget.amount = 900,
              timeframe = 30, description = ''flat'', expense_type = RequiredPayment,
              paid_from = Some ''Checking'', next_approx_payment = Some 5\<rparr>]
   \<and> date_min < 5"
proof -
  let ?bm = "\<lparr>Budget.category = ''Food'', subcategory = None, Budget.amount = 10,
              timeframe = 14, description = ''Food'', expense_type = Expendable,
              paid_from = None, next_approx_payment = None\<rparr>"
  let ?b0 = "\<lparr>Budget.category = ''Home'', subcategory = Some ''Rent'', Budget.amount = 900,
              timeframe = 30, description = ''flat'', expense_type = RequiredPayment,
              paid_from = Some ''Checking'', next_approx_payment = Some date_min\<rparr>"
  let ?b5 = "\<lparr>Budget.category = ''Home'', subcategory = Some ''Rent'', Budget.amount = 900,
              timeframe = 30, description = ''flat'', expense_type = RequiredPayment,
              paid_from = Some ''Checking'', next_approx_payment = Some 5\<rparr>"
  let ?mrows = "[[''Food'', ''$10'', '''', ''TRUE'']]"
  let ?rrows = "[[''Rent'', ''flat'', ''$900'', ''30'', ''FALSE'', ''Checking'', '''', ''01/01/0001'']]"
  have m: "from_manual_budget_range 14 ?mrows = Inr [?bm]"
    by (simp add: from_manual_budget_row_def getitem_def parse_money_eval text_eval)
  have r: "from_recurring_budget_range (\<lambda>s. Inr 30) (\<lambda>s. Inr date_min) [(''Home'', [''Rent''])] ?rrows
      = Inr [?b0]"
    by (simp add: from_recurring_budget_row_def getitem_def parse_money_eval text_eval
        find_category_def)
  have run: "main_budgets (\<lambda>s. Inr 30) (\<lambda>s. Inr date_min) 14 [(''Home'', [''Rent''])] ?mrows ?rrows
      = Inr [?bm, ?b0]"
    unfolding main_budgets_def m r
    by (simp add: sort_budgets_def budget_sort_key_def date_min_def)
  note t = budgets_sorted_undated_first
    [of "\<lambda>s. Inr 30" "\<lambda>s. Inr date_min" 14 "[(''Home'', [''Rent''])]" ?mrows ?rrows
        "[?bm, ?b0]" "[?b5, ?bm]"]
  from t run have s: "sorted (map budget_sort_key [?bm, ?b0])" by blast
  have h: "\<forall>b \<in> set [?b5, ?bm]. \<forall>dt. next_approx_payment b = Some dt \<longrightarrow> date_min < dt"
    by (simp add: date_min_def)
  have g: "sort_budgets [?b5, ?bm] = [?bm, ?b5]"
    by (simp add: sort_budgets_def budget_sort_key_def date_min_def)
  have "date_min < 5" by (simp add: date_min_def)
  with run s g show ?thesis by blast
qed

section \<open>The budget statistics aggregator\<close>

lemma cell_at_Inr_iff:
  "(cell_at rows k = Inr c) = (k < length rows \<and> rows ! k \<noteq> [] \<and> rows ! k ! 0 = c)"
  by (auto simp: cell_at_def bind_Inr_iff getitem_Inr_iff)

lemma cell_at_Inl_iff:
  "(cell_at rows k = Inl e) = ((length rows \<le> k \<or> rows ! k = []) \<and> e = IndexError)"
  by (auto simp: cell_at_def bind_Inl_iff getitem_Inr_iff getitem_Inl_iff)

lemma float_unsigned_error: "float_unsigned s = Inl e \<Longrightarrow> e = ValueError"
  by (auto simp: float_unsigned_def Let_def split: if_splits)

lemma parse_money_error: "parse_money v = Inl e \<Longrightarrow> e = ValueError"
  by (auto simp: parse_money_def float_of_residue_def bind_Inl_iff
      dest: float_unsigned_error split: option.splits if_splits list.splits)

lemma money_at_Inr_iff:
  "(money_at rows k = Inr v) =
     (k < length rows \<and> rows ! k \<noteq> [] \<and> parse_money (Some (rows ! k ! 0)) = Inr v)"
  by (auto simp: money_at_def bind_Inr_iff cell_at_Inr_iff)

lemma money_at_Inl_iff:
  "(money_at rows k = Inl e) =
     ((length rows \<le> k \<or> rows ! k = []) \<and> e = IndexError
      \<or> k < length rows \<and> rows ! k \<noteq> [] \<and> e = ValueError
        \<and> parse_money (Some (rows ! k ! 0)) = Inl ValueError)"
  by (auto simp: money_at_def bind_Inl_iff cell_at_Inr_iff cell_at_Inl_iff dest: parse_money_error)

lemma flag_at_Inr_iff:
  "(flag_at rows k = Inr b) =
     (k < length rows \<and> rows ! k \<noteq> []
      \<and> b = (upper (strip (rows ! k ! 0)) = codepoints ''TRUE''))"
  by (auto simp: flag_at_def bind_Inr_iff cell_at_Inr_iff)

lemma flag_at_Inl_iff:
  "(flag_at rows k = Inl e) = ((length rows \<le> k \<or> rows ! k = []) \<and> e = IndexError)"
  by (auto simp: flag_at_def bind_Inl_iff cell_at_Inl_iff)

lemma bind_InrE:
  assumes "bind m f = Inr y"
  obtains x where "m = Inr x" "f x = Inr y"
  using assms by (auto simp: bind_Inr_iff)

lemma bind_InlE:
  assumes "bind m f = Inl e"
  obtains "m = Inl e" | x where "m = Inr x" "f x = Inl e"
  using assms by (auto simp: bind_Inl_iff)

lemma BudgetStats_from_rows_Inr:
  assumes "BudgetStats_from_rows rows = Inr s"
  shows "31 < length rows
    \<and> income_account s = strip (rows ! 0 ! 0)
    \<and> parse_money (Some (rows ! 3 ! 0)) = Inr (total_budget s)
    \<and> parse_money (Some (rows ! 5 ! 0)) = Inr (income_at_period_start s)
    \<and> parse_money (Some (rows ! 7 ! 0)) = Inr (checking_amount_period_start s)
    \<and> parse_money (Some (rows ! 9 ! 0)) = Inr (total_withheld_required_payments s)
    \<and> parse_money (Some (rows ! 11 ! 0)) = Inr (total_withheld_savings s)
    \<and> parse_money (Some (rows ! 13 ! 0)) = Inr (balance_after_withheld s)
    \<and> parse_money (Some (rows ! 15 ! 0)) = Inr (budget_after_withheld s)
    \<and> parse_money (Some (rows ! 17 ! 0)) = Inr (allocated_spending_budget s)
    \<and> parse_money (Some (rows ! 19 ! 0)) = Inr (balance_after_withheld_and_spending s)
    \<and> parse_money (Some (rows ! 21 ! 0)) = Inr (budget_after_withheld_and_spending s)
    \<and> parse_money (Some (rows ! 23 ! 0)) = Inr (budget_after_withheld_and_spent s)
    \<and> overspent_soft s = (upper (strip (rows ! 25 ! 0)) = codepoints ''TRUE'')
    \<and> overspent_hard s = (upper (strip (rows ! 27 ! 0)) = codepoints ''TRUE'')
    \<and> parse_money (Some (rows ! 29 ! 0)) = Inr (checking_floor s)
    \<and> parse_money (Some (rows ! 31 ! 0)) = Inr (free_to_spend s)"
  using assms unfolding BudgetStats_from_rows_def
  apply (elim bind_InrE)
  apply (simp add: cell_at_Inr_iff money_at_Inr_iff flag_at_Inr_iff)
  apply (elim conjE)
  apply (drule sym [of _ s])
  apply simp
  done

lemma cell_at_fails:
  assumes "cell_at rows k = Inl e"
  shows "e = IndexError \<or> e = ValueError \<and> (\<exists>k \<in> set ks.
          k < length rows \<and> rows ! k \<noteq> [] \<and> parse_money (Some (rows ! k ! 0)) = Inl ValueError)"
  using assms by (simp add: cell_at_Inl_iff)

lemma flag_at_fails:
  assumes "flag_at rows k = Inl e"
  shows "e = IndexError \<or> e = ValueError \<and> (\<exists>k \<in> set ks.
          k < length rows \<and> rows ! k \<noteq> [] \<and> parse_money (Some (rows ! k ! 0)) = Inl ValueError)"
  using assms by (simp add: flag_at_Inl_iff)

lemma money_at_fails:
  assumes "money_at rows k = Inl e" "k \<in> set ks"
  shows "e = IndexError \<or> e = ValueError \<and> (\<exists>k \<in> set ks.
          k < length rows \<and> rows ! k \<noteq> [] \<and> parse_money (Some (rows ! k ! 0)) = Inl ValueError)"
  using assms by (auto simp: money_at_Inl_iff)

lemma BudgetStats_from_rows_Inl:
  assumes "BudgetStats_from_rows rows = Inl e"
  shows "e = IndexError
    \<or> e = ValueError \<and> (\<exists>k \<in> set [3, 5, 7, 9, 11, 13, 15, 17, 19, 21, 23, 29, 31].
          k < length rows \<and> rows ! k \<noteq> [] \<and> parse_money (Some (rows ! k ! 0)) = Inl ValueError)"
  using assms unfolding BudgetStats_from_rows_def
  apply (elim bind_InlE)
                  apply (erule cell_at_fails)
                 apply (erule money_at_fails, simp)+
     apply (erule flag_at_fails)+
   apply (erule money_at_fails, simp)+
  apply simp
  done

lemma upper_lower_letters:
  "((upper_char c = [84]) = (lower_char c = CHR ''t'')) \<and>
   ((upper_char c = [82]) = (lower_char c = CHR ''r'')) \<and>
   ((upper_char c = [85]) = (lower_char c = CHR ''u'')) \<and>
   ((upper_char c = [69]) = (lower_char c = CHR ''e''))"
proof (cases c)
  case (Char b0 b1 b2 b3 b4 b5 b6 b7)
  then show ?thesis
    by (cases b0; cases b1; cases b2; cases b3; cases b4; cases b5; cases b6; cases b7)
       (simp_all add: upper_char_def lower_char_def char_of_def bit_Suc_0_iff)
qed

lemma upper_lower_letter:
  "(upper_char c = [84]) = (lower_char c = CHR ''t'')"
  "(upper_char c = [82]) = (lower_char c = CHR ''r'')"
  "(upper_char c = [85]) = (lower_char c = CHR ''u'')"
  "(upper_char c = [69]) = (lower_char c = CHR ''e'')"
  using upper_lower_letters [of c] by blast+

lemma upper_char_shape: "(\<exists>n. upper_char c = [n]) \<or> upper_char c = [83, 83]"
  by (simp add: upper_char_def Let_def)

lemma upper_char_append:
  assumes "upper_char c @ r = x # t" "x \<noteq> 83"
  shows "upper_char c = [x] \<and> r = t"
  using assms upper_char_shape [of c] by auto

lemma upper_Nil: "upper s = [] \<Longrightarrow> s = []"
proof (cases s)
  case Nil
  then show ?thesis by simp
next
  case (Cons c s')
  assume "upper s = []"
  with Cons upper_char_shape [of c] show ?thesis by (auto simp: upper_def)
qed

lemma upper_Cons:
  assumes "upper s = x # t" "x \<noteq> 83"
  obtains c s' where "s = c # s'" "upper_char c = [x]" "upper s' = t"
proof (cases s)
  case Nil
  with assms show ?thesis by (simp add: upper_def)
next
  case (Cons c s')
  with assms have "upper_char c @ upper s' = x # t" by (simp add: upper_def)
  from upper_char_append [OF this assms(2)] Cons that show ?thesis by blast
qed

lemma upper_TRUE_iff: "(upper s = codepoints ''TRUE'') = (lower s = ''true'')"
proof
  assume "upper s = codepoints ''TRUE''"
  then have u: "upper s = [84, 82, 85, 69]" by (simp add: codepoints_def)
  from u obtain c1 s1 where 1: "s = c1 # s1" "upper_char c1 = [84]" "upper s1 = [82, 85, 69]"
    by (rule upper_Cons) simp_all
  from 1(3) obtain c2 s2 where 2: "s1 = c2 # s2" "upper_char c2 = [82]" "upper s2 = [85, 69]"
    by (rule upper_Cons) simp_all
  from 2(3) obtain c3 s3 where 3: "s2 = c3 # s3" "upper_char c3 = [85]" "upper s3 = [69]"
    by (rule upper_Cons) simp_all
  from 3(3) obtain c4 s4 where 4: "s3 = c4 # s4" "upper_char c4 = [69]" "upper s4 = []"
    by (rule upper_Cons) simp_all
  from 4(3) have "s4 = []" by (rule upper_Nil)
  with 1 2 3 4 show "lower s = ''true''"
    by (simp add: lower_def upper_lower_letter)
next
  assume "lower s = ''true''"
  then obtain c1 c2 c3 c4 where "s = [c1, c2, c3, c4]" "lower_char c1 = CHR ''t''"
    "lower_char c2 = CHR ''r''" "lower_char c3 = CHR ''u''" "lower_char c4 = CHR ''e''"
    by (auto simp: lower_def map_eq_Cons_conv)
  then show "upper s = codepoints ''TRUE''"
    by (simp add: upper_def codepoints_def upper_lower_letter [symmetric])
qed


lemma cell_at_ok: "j < length rows \<Longrightarrow> rows ! j \<noteq> [] \<Longrightarrow> cell_at rows j = Inr (rows ! j ! 0)"
  by (simp add: cell_at_Inr_iff)

lemma cell_at_missing: "length rows \<le> j \<or> rows ! j = [] \<Longrightarrow> cell_at rows j = Inl IndexError"
  by (simp add: cell_at_Inl_iff)

lemma cell_at_0: "rows \<noteq> [] \<Longrightarrow> rows ! 0 \<noteq> [] \<Longrightarrow> cell_at rows 0 = Inr (rows ! 0 ! 0)"
  by (simp add: cell_at_Inr_iff)

lemma first_ValueError:
  assumes "k \<in> set [3, 5, 7, 9, 11, 13, 15, 17, 19, 21, 23, 29, 31]"
    "\<forall>j \<in> set [0, 3, 5, 7, 9, 11, 13, 15, 17, 19, 21, 23, 25, 27, 29, 31].
       j < k \<longrightarrow> j < length rows \<and> rows ! j \<noteq> []"
    "\<forall>j \<in> set [3, 5, 7, 9, 11, 13, 15, 17, 19, 21, 23, 29, 31].
       j < k \<longrightarrow> (\<exists>v. parse_money (Some (rows ! j ! 0)) = Inr v)"
    "k < length rows" "rows ! k \<noteq> []" "parse_money (Some (rows ! k ! 0)) = Inl ValueError"
  shows "BudgetStats_from_rows rows = Inl ValueError"
proof -
  from assms(1) have "k = 3 \<or> k = 5 \<or> k = 7 \<or> k = 9 \<or> k = 11 \<or> k = 13 \<or> k = 15 \<or> k = 17
      \<or> k = 19 \<or> k = 21 \<or> k = 23 \<or> k = 29 \<or> k = 31"
    by simp
  moreover from assms(4) have "rows \<noteq> []" by auto
  ultimately show ?thesis
    using assms(2-)
    by (elim disjE; clarsimp simp: BudgetStats_from_rows_def money_at_def flag_at_def cell_at_ok
        cell_at_0)
qed

lemma first_IndexError:
  assumes "k \<in> set [0, 3, 5, 7, 9, 11, 13, 15, 17, 19, 21, 23, 25, 27, 29, 31]"
    "\<forall>j \<in> set [0, 3, 5, 7, 9, 11, 13, 15, 17, 19, 21, 23, 25, 27, 29, 31].
       j < k \<longrightarrow> j < length rows \<and> rows ! j \<noteq> []"
    "\<forall>j \<in> set [3, 5, 7, 9, 11, 13, 15, 17, 19, 21, 23, 29, 31].
       j < k \<longrightarrow> (\<exists>v. parse_money (Some (rows ! j ! 0)) = Inr v)"
    "length rows \<le> k \<or> rows ! k = []"
  shows "BudgetStats_from_rows rows = Inl IndexError"
proof -
  from assms(1) have "k = 0 \<or> k = 3 \<or> k = 5 \<or> k = 7 \<or> k = 9 \<or> k = 11 \<or> k = 13 \<or> k = 15
      \<or> k = 17 \<or> k = 19 \<or> k = 21 \<or> k = 23 \<or> k = 25 \<or> k = 27 \<or> k = 29 \<or> k = 31"
    by simp
  moreover from assms(2) have "0 < k \<longrightarrow> rows \<noteq> []" by auto
  ultimately show ?thesis
    using assms(2-)
    by (elim disjE; clarsimp simp: BudgetStats_from_rows_def money_at_def flag_at_def cell_at_ok
        cell_at_0 cell_at_missing)
qed

lemma all_cells_ok:
  assumes "\<forall>j \<in> set [0, 3, 5, 7, 9, 11, 13, 15, 17, 19, 21, 23, 25, 27, 29, 31].
       j < length rows \<and> rows ! j \<noteq> []"
    "\<forall>j \<in> set [3, 5, 7, 9, 11, 13, 15, 17, 19, 21, 23, 29, 31].
       \<exists>v. parse_money (Some (rows ! j ! 0)) = Inr v"
  shows "\<exists>s. BudgetStats_from_rows rows = Inr s"
proof -
  from assms(1) have "rows \<noteq> []" by auto
  then show ?thesis
    using assms
    by (clarsimp simp: BudgetStats_from_rows_def money_at_def flag_at_def cell_at_ok cell_at_0)
qed

lemma budget_stats_fields:
  "(BudgetStats_from_rows rows = Inr s \<longrightarrow>
      31 < length rows
      \<and> income_account s = strip (rows ! 0 ! 0)
      \<and> parse_money (Some (rows ! 3 ! 0)) = Inr (total_budget s)
      \<and> parse_money (Some (rows ! 5 ! 0)) = Inr (income_at_period_start s)
      \<and> parse_money (Some (rows ! 7 ! 0)) = Inr (checking_amount_period_start s)
      \<and> parse_money (Some (rows ! 9 ! 0)) = Inr (total_withheld_required_payments s)
      \<and> parse_money (Some (rows ! 11 ! 0)) = Inr (total_withheld_savings s)
      \<and> parse_money (Some (rows ! 13 ! 0)) = Inr (balance_after_withheld s)
      \<and> parse_money (Some (rows ! 15 ! 0)) = Inr (budget_after_withheld s)
      \<and> parse_money (Some (rows ! 17 ! 0)) = Inr (allocated_spending_budget s)
      \<and> parse_money (Some (rows ! 19 ! 0)) = Inr (balance_after_withheld_and_spending s)
      \<and> parse_money (Some (rows ! 21 ! 0)) = Inr (budget_after_withheld_and_spending s)
      \<and> parse_money (Some (rows ! 23 ! 0)) = Inr (budget_after_withheld_and_spent s)
      \<and> overspent_soft s = (lower (strip (rows ! 25 ! 0)) = ''true'')
      \<and> overspent_hard s = (lower (strip (rows ! 27 ! 0)) = ''true'')
      \<and> parse_money (Some (rows ! 29 ! 0)) = Inr (checking_floor s)
      \<and> parse_money (Some (rows ! 31 ! 0)) = Inr (free_to_spend s))
   \<and> (length rows < 32 \<longrightarrow> (\<exists>e. BudgetStats_from_rows rows = Inl e))
   \<and> (BudgetStats_from_rows rows = Inl e \<longrightarrow>
        e = IndexError
        \<or> e = ValueError \<and> (\<exists>k \<in> set [3, 5, 7, 9, 11, 13, 15, 17, 19, 21, 23, 29, 31].
             k < length rows \<and> rows ! k \<noteq> []
             \<and> parse_money (Some (rows ! k ! 0)) = Inl ValueError))"
proof -
  have short: "\<exists>e. BudgetStats_from_rows rows = Inl e" if "length rows < 32"
  proof (cases "BudgetStats_from_rows rows")
    case (Inl e)
    then show ?thesis by blast
  next
    case (Inr s')
    from BudgetStats_from_rows_Inr [OF this] that show ?thesis by simp
  qed
  have ok: "BudgetStats_from_rows rows = Inr s \<longrightarrow>
      31 < length rows
      \<and> income_account s = strip (rows ! 0 ! 0)
      \<and> parse_money (Some (rows ! 3 ! 0)) = Inr (total_budget s)
      \<and> parse_money (Some (rows ! 5 ! 0)) = Inr (income_at_period_start s)
      \<and> parse_money (Some (rows ! 7 ! 0)) = Inr (checking_amount_period_start s)
      \<and> parse_money (Some (rows ! 9 ! 0)) = Inr (total_withheld_required_payments s)
      \<and> parse_money (Some (rows ! 11 ! 0)) = Inr (total_withheld_savings s)
      \<and> parse_money (Some (rows ! 13 ! 0)) = Inr (balance_after_withheld s)
      \<and> parse_money (Some (rows ! 15 ! 0)) = Inr (budget_after_withheld s)
      \<and> parse_money (Some (rows ! 17 ! 0)) = Inr (allocated_spending_budget s)
      \<and> parse_money (Some (rows ! 19 ! 0)) = Inr (balance_after_withheld_and_spending s)
      \<and> parse_money (Some (rows ! 21 ! 0)) = Inr (budget_after_withheld_and_spending s)
      \<and> parse_money (Some (rows ! 23 ! 0)) = Inr (budget_after_withheld_and_spent s)
      \<and> overspent_soft s = (lower (strip (rows ! 25 ! 0)) = ''true'')
      \<and> overspent_hard s = (lower (strip (rows ! 27 ! 0)) = ''true'')
      \<and> parse_money (Some (rows ! 29 ! 0)) = Inr (checking_floor s)
      \<and> parse_money (Some (rows ! 31 ! 0)) = Inr (free_to_spend s)"
    using BudgetStats_from_rows_Inr [of rows s] unfolding upper_TRUE_iff by blast
  from ok short BudgetStats_from_rows_Inl [of rows e] show ?thesis by blast
qed

text \<open>
  C6. \<open>BudgetStats.from_rows\<close> reads its sixteen fields by fixed row index from the first
  cell of each row: the income account name from row 0, the total budget from row 3, and
  the following fields from rows 5, 7, ..., 31; the two flags (rows 25 and 27) are true
  exactly when the stripped cell is \<open>TRUE\<close> in any mix of letter case. A block with fewer
  than 32 rows never gives a result, partial or not: the call fails. The cells are read
  in ascending row order and the first read that fails decides the error: \<open>IndexError\<close>
  when that row is missing or has no cell, \<open>ValueError\<close> when that cell is a malformed
  amount. A block whose sixteen cells are all there and parse gives a result.
\<close>

theorem budget_stats_fixed_offsets:
  "((BudgetStats_from_rows rows = Inr s \<longrightarrow>
      31 < length rows
      \<and> income_account s = strip (rows ! 0 ! 0)
      \<and> parse_money (Some (rows ! 3 ! 0)) = Inr (total_budget s)
      \<and> parse_money (Some (rows ! 5 ! 0)) = Inr (income_at_period_start s)
      \<and> parse_money (Some (rows ! 7 ! 0)) = Inr (checking_amount_period_start s)
      \<and> parse_money (Some (rows ! 9 ! 0)) = Inr (total_withheld_required_payments s)
      \<and> parse_money (Some (rows ! 11 ! 0)) = Inr (total_withheld_savings s)
      \<and> parse_money (Some (rows ! 13 ! 0)) = Inr (balance_after_withheld s)
      \<and> parse_money (Some (rows ! 15 ! 0)) = Inr (budget_after_withheld s)
      \<and> parse_money (Some (rows ! 17 ! 0)) = Inr (allocated_spending_budget s)
      \<and> parse_money (Some (rows ! 19 ! 0)) = Inr (balance_after_withheld_and_spending s)
      \<and> parse_money (Some (rows ! 21 ! 0)) = Inr (budget_after_withheld_and_spending s)
      \<and> parse_money (Some (rows ! 23 ! 0)) = Inr (budget_after_withheld_and_spent s)
      \<and> overspent_soft s = (lower (strip (rows ! 25 ! 0)) = ''true'')
      \<and> overspent_hard s = (lower (strip (rows ! 27 ! 0)) = ''true'')
      \<and> parse_money (Some (rows ! 29 ! 0)) = Inr (checking_floor s)
      \<and> parse_money (Some (rows ! 31 ! 0)) = Inr (free_to_spend s))
   \<and> (length rows < 32 \<longrightarrow> (\<exists>e. BudgetStats_from_rows rows = Inl e))
   \<and> (BudgetStats_from_rows rows = Inl e \<longrightarrow>
        e = IndexError
        \<or> e = ValueError \<and> (\<exists>k \<in> set [3, 5, 7, 9, 11, 13, 15, 17, 19, 21, 23, 29, 31].
             k < length rows \<and> rows ! k \<noteq> []
             \<and> parse_money (Some (rows ! k ! 0)) = Inl ValueError)))
   \<and> (k \<in> set [3, 5, 7, 9, 11, 13, 15, 17, 19, 21, 23, 29, 31]
      \<and> (\<forall>j \<in> set [0, 3, 5, 7, 9, 11, 13, 15, 17, 19, 21, 23, 25, 27, 29, 31].
            j < k \<longrightarrow> j < length rows \<and> rows ! j \<noteq> [])
      \<and> (\<forall>j \<in> set [3, 5, 7, 9, 11, 13, 15, 17, 19, 21, 23, 29, 31].
            j < k \<longrightarrow> (\<exists>v. parse_money (Some (rows ! j ! 0)) = Inr v))
      \<and> k < length rows \<and> rows ! k \<noteq> []
      \<and> parse_money (Some (rows ! k ! 0)) = Inl ValueError \<longrightarrow>
      BudgetStats_from_rows rows = Inl ValueError)
   \<and> (k \<in> set [0, 3, 5, 7, 9, 11, 13, 15, 17, 19, 21, 23, 25, 27, 29, 31]
      \<and> (\<forall>j \<in> set [0, 3, 5, 7, 9, 11, 13, 15, 17, 19, 21, 23, 25, 27, 29, 31].
            j < k \<longrightarrow> j < length rows \<and> rows ! j \<noteq> [])
      \<and> (\<forall>j \<in> set [3, 5, 7, 9, 11, 13, 15, 17, 19, 21, 23, 29, 31].
            j < k \<longrightarrow> (\<exists>v. parse_money (Some (rows ! j ! 0)) = Inr v))
      \<and> (length rows \<le> k \<or> rows ! k = []) \<longrightarrow>
      BudgetStats_from_rows rows = Inl IndexError)
   \<and> ((\<forall>j \<in> set [0, 3, 5, 7, 9, 11, 13, 15, 17, 19, 21, 23, 25, 27, 29, 31].
            j < length rows \<and> rows ! j \<noteq> [])
      \<and> (\<forall>j \<in> set [3, 5, 7, 9, 11, 13, 15, 17, 19, 21, 23, 29, 31].
            \<exists>v. parse_money (Some (rows ! j ! 0)) = Inr v) \<longrightarrow>
      (\<exists>s. BudgetStats_from_rows rows = Inr s))"
proof -
  note fields = budget_stats_fields [of rows s e]
  have order:
    "(k \<in> set [3, 5, 7, 9, 11, 13, 15, 17, 19, 21, 23, 29, 31]
      \<and> (\<forall>j \<in> set [0, 3, 5, 7, 9, 11, 13, 15, 17, 19, 21, 23, 25, 27, 29, 31].
            j < k \<longrightarrow> j < length rows \<and> rows ! j \<noteq> [])
      \<and> (\<forall>j \<in> set [3, 5, 7, 9, 11, 13, 15, 17, 19, 21, 23, 29, 31].
            j < k \<longrightarrow> (\<exists>v. parse_money (Some (rows ! j ! 0)) = Inr v))
      \<and> k < length rows \<and> rows ! k \<noteq> []
      \<and> parse_money (Some (rows ! k ! 0)) = Inl ValueError \<longrightarrow>
      BudgetStats_from_rows rows = Inl ValueError)
   \<and> (k \<in> set [0, 3, 5, 7, 9, 11, 13, 15, 17, 19, 21, 23, 25, 27, 29, 31]
      \<and> (\<forall>j \<in> set [0, 3, 5, 7, 9, 11, 13, 15, 17, 19, 21, 23, 25, 27, 29, 31].
            j < k \<longrightarrow> j < length rows \<and> rows ! j \<noteq> [])
      \<and> (\<forall>j \<in> set [3, 5, 7, 9, 11, 13, 15, 17, 19, 21, 23, 29, 31].
            j < k \<longrightarrow> (\<exists>v. parse_money (Some (rows ! j ! 0)) = Inr v))
      \<and> (length rows \<le> k \<or> rows ! k = []) \<longrightarrow>
      BudgetStats_from_rows rows = Inl IndexError)
   \<and> ((\<forall>j \<in> set [0, 3, 5, 7, 9, 11, 13, 15, 17, 19, 21, 23, 25, 27, 29, 31].
            j < length rows \<and> rows ! j \<noteq> [])
      \<and> (\<forall>j \<in> set [3, 5, 7, 9, 11, 13, 15, 17, 19, 21, 23, 29, 31].
            \<exists>v. parse_money (Some (rows ! j ! 0)) = Inr v) \<longrightarrow>
      (\<exists>s. BudgetStats_from_rows rows = Inr s))"
    using first_ValueError [of k rows] first_IndexError [of k rows] all_cells_ok [of rows]
    by (intro conjI impI) (elim conjE, assumption+)+
  from fields order show ?thesis by (rule conjI)
qed

text \<open>
  A short block does not always fail with the out-of-range error: a malformed money cell
  that is read before the missing row raises its parse error first.
\<close>

theorem short_block_parse_error_counterexample:
  "length [[''Checking''], [], [], [''1.2.3'']] < 32
   \<and> BudgetStats_from_rows [[''Checking''], [], [], [''1.2.3'']] = Inl ValueError
   \<and> BudgetStats_from_rows [[''Checking''], [], [], [''1.2.3'']] \<noteq> Inl IndexError"
  by (simp add: BudgetStats_from_rows_def cell_at_def money_at_def getitem_def parse_money_eval)

lemma example_block:
  "BudgetStats_from_rows
     ([''Checking ''] # replicate 24 [''$10'']
        @ [[''true''], [''$10''], [''no''], [''$10''], [''$10''], [''$10''], [''$10.50'']])
   = Inr \<lparr>income_account = ''Checking'', total_budget = 10, income_at_period_start = 10,
        checking_amount_period_start = 10, total_withheld_required_payments = 10,
        total_withheld_savings = 10, balance_after_withheld = 10, budget_after_withheld = 10,
        allocated_spending_budget = 10, balance_after_withheld_and_spending = 10,
        budget_after_withheld_and_spending = 10, budget_after_withheld_and_spent = 10,
        overspent_soft = True, overspent_hard = False, checking_floor = 10,
        free_to_spend = 21 / 2\<rparr>"
  by code_simp


lemma example_block_cells:
  "\<forall>j \<in> set [0, 3, 5, 7, 9, 11, 13, 15, 17, 19, 21, 23, 25, 27, 29, 31].
     j < length ([''Checking ''] # replicate 24 [''$10'']
        @ [[''true''], [''$10''], [''no''], [''$10''], [''$10''], [''$10''], [''$10.50'']])
     \<and> ([''Checking ''] # replicate 24 [''$10'']
        @ [[''true''], [''$10''], [''no''], [''$10''], [''$10''], [''$10''], [''$10.50'']]) ! j \<noteq> []"
  by code_simp

lemma example_block_money:
  "\<forall>j \<in> set [3, 5, 7, 9, 11, 13, 15, 17, 19, 21, 23, 29, 31].
     parse_money (Some (([''Checking ''] # replicate 24 [''$10'']
        @ [[''true''], [''$10''], [''no''], [''$10''], [''$10''], [''$10''], [''$10.50'']]) ! j ! 0))
     = Inr (if j = 31 then 21 / 2 else 10)"
  by code_simp

theorem budget_stats_fixed_offsets_witness:
  "BudgetStats_from_rows
     ([''Checking ''] # replicate 24 [''$10'']
        @ [[''true''], [''$10''], [''no''], [''$10''], [''$10''], [''$10''], [''$10.50'']])
   = Inr \<lparr>income_account = ''Checking'', total_budget = 10, income_at_period_start = 10,
        checking_amount_period_start = 10, total_withheld_required_payments = 10,
        total_withheld_savings = 10, balance_after_withheld = 10, budget_after_withheld = 10,
        allocated_spending_budget = 10, balance_after_withheld_and_spending = 10,
        budget_after_withheld_and_spending = 10, budget_after_withheld_and_spent = 10,
        overspent_soft = True, overspent_hard = False, checking_floor = 10,
        free_to_spend = 21 / 2\<rparr>
   \<and> 31 < length ([''Checking ''] # replicate 24 [''$10'']
        @ [[''true''], [''$10''], [''no''], [''$10''], [''$10''], [''$10''], [''$10.50'']])
   \<and> length [[''Checking''], [''''], [''''], [''$2000'']] < 32
   \<and> parse_money (Some ([[''Checking''], [''''], [''''], [''$2000'']] ! 3 ! 0)) = Inr 2000
   \<and> BudgetStats_from_rows [[''Checking''], [''''], [''''], [''$2000'']] = Inl IndexError
   \<and> parse_money (Some ([[''Checking''], [], [], [''1.2.3'']] ! 3 ! 0)) = Inl ValueError
   \<and> BudgetStats_from_rows [[''Checking''], [], [], [''1.2.3'']] = Inl ValueError
   \<and> (\<exists>s. BudgetStats_from_rows
        ([''Checking ''] # replicate 24 [''$10'']
           @ [[''true''], [''$10''], [''no''], [''$10''], [''$10''], [''$10''], [''$10.50'']])
        = Inr s)"
proof -
  let ?ex = "[''Checking ''] # replicate 24 [''$10'']
        @ [[''true''], [''$10''], [''no''], [''$10''], [''$10''], [''$10''], [''$10.50'']]"
  let ?short = "[[''Checking''], [''''], [''''], [''$2000'']]"
  let ?bad = "[[''Checking''], [], [], [''1.2.3'']]"
  note ex = example_block
  from budget_stats_fixed_offsets [of ?ex _ ValueError 0, THEN conjunct1] ex
  have l: "31 < length ?ex" by blast
  have p: "parse_money (Some (?short ! 3 ! 0)) = Inr 2000"
    "parse_money (Some (?bad ! 3 ! 0)) = Inl ValueError"
    by (simp_all add: parse_money_eval)
  have "\<exists>v. parse_money (Some (?short ! 3 ! 0)) = Inr v" using p(1) by blast
  then have hs: "5 \<in> set [0, 3, 5, 7, 9, 11, 13, 15, 17, 19, 21, 23, 25, 27, 29, 31 :: nat]
      \<and> (\<forall>j \<in> set [0, 3, 5, 7, 9, 11, 13, 15, 17, 19, 21, 23, 25, 27, 29, 31].
            j < 5 \<longrightarrow> j < length ?short \<and> ?short ! j \<noteq> [])
      \<and> (\<forall>j \<in> set [3, 5, 7, 9, 11, 13, 15, 17, 19, 21, 23, 29, 31].
            j < 5 \<longrightarrow> (\<exists>v. parse_money (Some (?short ! j ! 0)) = Inr v))
      \<and> (length ?short \<le> 5 \<or> ?short ! 5 = [])"
    by simp
  note ts = budget_stats_fixed_offsets [of ?short _ IndexError 5,
      THEN conjunct2, THEN conjunct2, THEN conjunct1]
  from ts hs have i: "BudgetStats_from_rows ?short = Inl IndexError" by (rule mp)
  have hb: "3 \<in> set [3, 5, 7, 9, 11, 13, 15, 17, 19, 21, 23, 29, 31 :: nat]
      \<and> (\<forall>j \<in> set [0, 3, 5, 7, 9, 11, 13, 15, 17, 19, 21, 23, 25, 27, 29, 31].
            j < 3 \<longrightarrow> j < length ?bad \<and> ?bad ! j \<noteq> [])
      \<and> (\<forall>j \<in> set [3, 5, 7, 9, 11, 13, 15, 17, 19, 21, 23, 29, 31].
            j < 3 \<longrightarrow> (\<exists>v. parse_money (Some (?bad ! j ! 0)) = Inr v))
      \<and> 3 < length ?bad \<and> ?bad ! 3 \<noteq> []
      \<and> parse_money (Some (?bad ! 3 ! 0)) = Inl ValueError"
    using p(2) by simp
  note tb = budget_stats_fixed_offsets [of ?bad _ ValueError 3, THEN conjunct2, THEN conjunct1]
  from tb hb have b: "BudgetStats_from_rows ?bad = Inl ValueError" by (rule mp)
  from example_block_money
  have m: "\<forall>j \<in> set [3, 5, 7, 9, 11, 13, 15, 17, 19, 21, 23, 29, 31].
     \<exists>v. parse_money (Some (?ex ! j ! 0)) = Inr v"
    by blast
  note te = budget_stats_fixed_offsets [of ?ex _ ValueError 0,
      THEN conjunct2, THEN conjunct2, THEN conjunct2]
  from te example_block_cells m have r: "\<exists>s. BudgetStats_from_rows ?ex = Inr s" by blast
  from ex l i b p r show ?thesis by simp
qed

section \<open>The category sums and the total\<close>

lemma category_cases: "c = Spending \<or> c = Bills \<or> c = Savings"
  by (cases c) simp_all

lemma amounts_partition:
  "mset [BssSpent.amount bss. bss \<leftarrow> els, BssSpent.category bss = Spending]
   + mset [BssSpent.amount bss. bss \<leftarrow> els, BssSpent.category bss = Bills]
   + mset [BssSpent.amount bss. bss \<leftarrow> els, BssSpent.category bss = Savings]
   = mset [BssSpent.amount bss. bss \<leftarrow> els]"
proof (induction els)
  case Nil
  then show ?case by simp
next
  case (Cons e els)
  then show ?case using category_cases [of "BssSpent.category e"] by auto
qed

lemma sums_partition_exact: "spending b + bills b + savings b = total b"
proof -
  have "sum_list [BssSpent.amount bss. bss \<leftarrow> els, BssSpent.category bss = Spending]
      + sum_list [BssSpent.amount bss. bss \<leftarrow> els, BssSpent.category bss = Bills]
      + sum_list [BssSpent.amount bss. bss \<leftarrow> els, BssSpent.category bss = Savings]
      = sum_list [BssSpent.amount bss. bss \<leftarrow> els]" for els :: "BssSpent list"
  proof (induction els)
    case Nil
    then show ?case by simp
  next
    case (Cons e els)
    then show ?case using category_cases [of "BssSpent.category e"] by auto
  qed
  then show ?thesis by (simp add: spending_def bills_def savings_def total_def)
qed

lemma foldl_fadd_exact:
  "adds_exactly acc xs \<Longrightarrow> foldl fadd acc xs = acc + sum_list xs"
  by (induction xs arbitrary: acc) (simp_all add: fadd_def add.assoc)

lemma sum_f64_exact: "adds_exactly 0 xs \<Longrightarrow> sum_f64 xs = sum_list xs"
  using foldl_fadd_exact [of 0 xs] by (simp add: sum_f64_def)


text \<open>
  C7. For every categorized-spend collection, each element's amount is summed
  by exactly one of \<open>spending()\<close>, \<open>bills()\<close> and \<open>savings()\<close>, and \<open>total()\<close> sums them
  all. As exact numbers \<open>spending() + bills() + savings()\<close> is \<open>total()\<close>. In the code's
  binary floating point the two are equal whenever none of the additions involved
  rounds (as with whole-number amounts); otherwise they can differ in the last bit.
\<close>

theorem category_sums_and_total:
  "mset [BssSpent.amount bss. bss \<leftarrow> elements b, BssSpent.category bss = Spending]
     + mset [BssSpent.amount bss. bss \<leftarrow> elements b, BssSpent.category bss = Bills]
     + mset [BssSpent.amount bss. bss \<leftarrow> elements b, BssSpent.category bss = Savings]
     = mset [BssSpent.amount bss. bss \<leftarrow> elements b]
   \<and> spending b + bills b + savings b = total b
   \<and> (adds_exactly 0 [BssSpent.amount bss. bss \<leftarrow> elements b, BssSpent.category bss = Spending]
      \<and> adds_exactly 0 [BssSpent.amount bss. bss \<leftarrow> elements b, BssSpent.category bss = Bills]
      \<and> adds_exactly 0 [BssSpent.amount bss. bss \<leftarrow> elements b, BssSpent.category bss = Savings]
      \<and> adds_exactly 0 [BssSpent.amount bss. bss \<leftarrow> elements b]
      \<and> round64 (spending b + bills b) = spending b + bills b
      \<and> round64 (spending b + bills b + savings b) = spending b + bills b + savings b
      \<longrightarrow> fadd (fadd (spending_f64 b) (bills_f64 b)) (savings_f64 b) = total_f64 b)"
proof -
  have f: "fadd (fadd (spending_f64 b) (bills_f64 b)) (savings_f64 b) = total_f64 b"
    if e: "adds_exactly 0 [BssSpent.amount bss. bss \<leftarrow> elements b, BssSpent.category bss = Spending]"
      "adds_exactly 0 [BssSpent.amount bss. bss \<leftarrow> elements b, BssSpent.category bss = Bills]"
      "adds_exactly 0 [BssSpent.amount bss. bss \<leftarrow> elements b, BssSpent.category bss = Savings]"
      "adds_exactly 0 [BssSpent.amount bss. bss \<leftarrow> elements b]"
      and r: "round64 (spending b + bills b) = spending b + bills b"
      "round64 (spending b + bills b + savings b) = spending b + bills b + savings b"
  proof -
    from e have s: "spending_f64 b = spending b" "bills_f64 b = bills b"
      "savings_f64 b = savings b" "total_f64 b = total b"
      unfolding spending_f64_def bills_f64_def savings_f64_def total_f64_def
        spending_def bills_def savings_def total_def
      by (simp_all only: sum_f64_exact)
    from r show ?thesis
      unfolding s fadd_def by (simp add: sums_partition_exact)
  qed
  from f amounts_partition [of "elements b"] sums_partition_exact [of b]
  show ?thesis by blast
qed

theorem category_sums_and_total_witness:
  "(let b = \<lparr>elements = [\<lparr>BssSpent.category = Bills, BssSpent.amount = 500\<rparr>,
                          \<lparr>BssSpent.category = Savings, BssSpent.amount = 200\<rparr>,
                          \<lparr>BssSpent.category = Spending, BssSpent.amount = 150\<rparr>]\<rparr>
    in adds_exactly 0 [BssSpent.amount bss. bss \<leftarrow> elements b, BssSpent.category bss = Spending]
      \<and> adds_exactly 0 [BssSpent.amount bss. bss \<leftarrow> elements b, BssSpent.category bss = Bills]
      \<and> adds_exactly 0 [BssSpent.amount bss. bss \<leftarrow> elements b, BssSpent.category bss = Savings]
      \<and> adds_exactly 0 [BssSpent.amount bss. bss \<leftarrow> elements b]
      \<and> round64 (spending b + bills b) = spending b + bills b
      \<and> round64 (spending b + bills b + savings b) = spending b + bills b + savings b
      \<and> fadd (fadd (spending_f64 b) (bills_f64 b)) (savings_f64 b) = total_f64 b
      \<and> total b = 850)"
proof -
  define b where "b = \<lparr>elements = [\<lparr>BssSpent.category = Bills, BssSpent.amount = 500\<rparr>,
                          \<lparr>BssSpent.category = Savings, BssSpent.amount = 200\<rparr>,
                          \<lparr>BssSpent.category = Spending, BssSpent.amount = 150\<rparr>]\<rparr>"
  have r: "round64 150 = 150" "round64 500 = 500" "round64 200 = 200" "round64 700 = 700"
    "round64 650 = 650" "round64 850 = 850"
    by code_simp+
  have v: "spending b = 150" "bills b = 500" "savings b = 200" "total b = 850"
    by (simp_all add: b_def spending_def bills_def savings_def total_def)
  have h: "adds_exactly 0 [BssSpent.amount bss. bss \<leftarrow> elements b, BssSpent.category bss = Spending]"
    "adds_exactly 0 [BssSpent.amount bss. bss \<leftarrow> elements b, BssSpent.category bss = Bills]"
    "adds_exactly 0 [BssSpent.amount bss. bss \<leftarrow> elements b, BssSpent.category bss = Savings]"
    "adds_exactly 0 [BssSpent.amount bss. bss \<leftarrow> elements b]"
    "round64 (spending b + bills b) = spending b + bills b"
    "round64 (spending b + bills b + savings b) = spending b + bills b + savings b"
    by (simp_all add: v r) (simp_all add: b_def r)
  with category_sums_and_total [of b]
  have "fadd (fadd (spending_f64 b) (bills_f64 b)) (savings_f64 b) = total_f64 b" by blast
  with h v show ?thesis unfolding Let_def b_def by blast
qed

text \<open>
  The two sides are not equal for every collection of floats. With the floats nearest to
  0.2, 0.3 and 0.1 the category sums add up to \<open>(0.1 + 0.2) + 0.3\<close>, which is
  0.6000000000000001, and the total is \<open>(0.2 + 0.3) + 0.1\<close>, which is 0.6.
\<close>

theorem float_sums_differ_counterexample:
  "(let b = \<lparr>elements = [\<lparr>BssSpent.category = Bills, BssSpent.amount = round64 (2 / 10)\<rparr>,
                          \<lparr>BssSpent.category = Savings, BssSpent.amount = round64 (3 / 10)\<rparr>,
                          \<lparr>BssSpent.category = Spending, BssSpent.amount = round64 (1 / 10)\<rparr>]\<rparr>
    in fadd (fadd (spending_f64 b) (bills_f64 b)) (savings_f64 b)
         = 5404319552844596 / 9007199254740992
       \<and> total_f64 b = 5404319552844595 / 9007199254740992
       \<and> fadd (fadd (spending_f64 b) (bills_f64 b)) (savings_f64 b) \<noteq> total_f64 b)"
  by code_simp

end
